theory Spec2Isabelle
  imports Complex_Main "HOL-Library.Char_ord" "HOL-Library.List_Lexorder" "HOL-Library.AList"
begin

section \<open>JavaScript values\<close>

text \<open>
  The analytics routine \<open>computeAdvancedAnalytics\<close> (Insights component) is plain
  JavaScript over records that come from a spreadsheet parser, so a field of a record may
  hold a string, a number, a boolean, \<open>null\<close> or nothing at all.  Numbers are IEEE
  doubles in the source; here a finite double is an exact rational and \<open>NaN\<close> is kept
  as a value of its own (rounding, overflow and the infinities are outside the model).
  Counters that only ever hold small non-negative integers are exact in both.

  Strings are lists of code units below 256 (Latin-1).

  \<open>JInherited k\<close> is the value found under the name \<open>k\<close> on \<open>Object.prototype\<close>
  (a built-in function, or the prototype object itself for \<open>__proto__\<close>): an object
  literal \<open>{}\<close> used as a dictionary answers with it when asked for such a name.
\<close>

datatype jsnum = NaN | Num rat

datatype jsval =
    Undefined
  | Null
  | JBool bool
  | JNum jsnum
  | JStr string
  | JInherited string

text \<open>
  Built-ins whose result the language leaves to the implementation, or whose definition
  is floating-point formatting, are parameters of the model: every theorem below holds
  for each choice of them.
\<close>

record js_env =
  dateParse :: "string \<Rightarrow> int option"
    \<comment> \<open>\<open>Date.parse\<close>: milliseconds since the epoch, \<open>None\<close> for an invalid date\<close>
  stringToNumber :: "string \<Rightarrow> jsnum"
    \<comment> \<open>\<open>Number(s)\<close> on a string\<close>
  numberToString :: "jsnum \<Rightarrow> string"
    \<comment> \<open>\<open>String(n)\<close> on a number\<close>
  nativeText :: "string \<Rightarrow> string"
    \<comment> \<open>\<open>String(Object.prototype[k])\<close>\<close>
  toFixed1 :: "jsnum \<Rightarrow> string"
    \<comment> \<open>\<open>n.toFixed(1)\<close>\<close>
  toLocaleDateString :: "int option \<Rightarrow> string"
    \<comment> \<open>\<open>d.toLocaleDateString()\<close> of a date with the given time value\<close>

fun truthy :: "jsval \<Rightarrow> bool" where
  "truthy Undefined = False"
| "truthy Null = False"
| "truthy (JBool b) = b"
| "truthy (JNum NaN) = False"
| "truthy (JNum (Num q)) = (q \<noteq> 0)"
| "truthy (JStr s) = (s \<noteq> [])"
| "truthy (JInherited k) = True"

definition js_or :: "jsval \<Rightarrow> jsval \<Rightarrow> jsval" where
  \<comment> \<open>\<open>a || b\<close>\<close>
  "js_or a b = (if truthy a then a else b)"

fun ToString :: "js_env \<Rightarrow> jsval \<Rightarrow> string" where
  "ToString env Undefined = ''undefined''"
| "ToString env Null = ''null''"
| "ToString env (JBool b) = (if b then ''true'' else ''false'')"
| "ToString env (JNum n) = numberToString env n"
| "ToString env (JStr s) = s"
| "ToString env (JInherited k) = nativeText env k"

fun ToNumber :: "js_env \<Rightarrow> jsval \<Rightarrow> jsnum" where
  "ToNumber env Undefined = NaN"
| "ToNumber env Null = Num 0"
| "ToNumber env (JBool b) = (if b then Num 1 else Num 0)"
| "ToNumber env (JNum n) = n"
| "ToNumber env (JStr s) = stringToNumber env s"
| "ToNumber env (JInherited k) = stringToNumber env (nativeText env k)"

fun num_add :: "jsnum \<Rightarrow> jsnum \<Rightarrow> jsnum" where
  "num_add (Num a) (Num b) = Num (a + b)"
| "num_add _ _ = NaN"

fun num_mul :: "jsnum \<Rightarrow> jsnum \<Rightarrow> jsnum" where
  "num_mul (Num a) (Num b) = Num (a * b)"
| "num_mul _ _ = NaN"

fun num_gt :: "jsnum \<Rightarrow> jsnum \<Rightarrow> bool" where
  "num_gt (Num a) (Num b) = (a > b)"
| "num_gt _ _ = False"

fun is_stringy :: "jsval \<Rightarrow> bool" where
  \<comment> \<open>the values that \<open>ToPrimitive\<close> turns into a string\<close>
  "is_stringy (JStr s) = True"
| "is_stringy (JInherited k) = True"
| "is_stringy _ = False"

definition js_add :: "js_env \<Rightarrow> jsval \<Rightarrow> jsval \<Rightarrow> jsval" where
  \<comment> \<open>\<open>a + b\<close>: concatenation as soon as one side is a string, addition otherwise\<close>
  "js_add env a b =
     (if is_stringy a \<or> is_stringy b then JStr (ToString env a @ ToString env b)
      else JNum (num_add (ToNumber env a) (ToNumber env b)))"

definition js_gt :: "js_env \<Rightarrow> jsval \<Rightarrow> jsval \<Rightarrow> bool" where
  \<comment> \<open>\<open>a > b\<close>: by code units when both sides are strings, by number otherwise\<close>
  "js_gt env a b =
     (if is_stringy a \<and> is_stringy b then ToString env a > ToString env b
      else num_gt (ToNumber env a) (ToNumber env b))"

definition js_lt :: "js_env \<Rightarrow> jsval \<Rightarrow> jsval \<Rightarrow> bool" where
  \<comment> \<open>\<open>a < b\<close>\<close>
  "js_lt env a b = js_gt env b a"

subsection \<open>Strings\<close>

definition is_space :: "char \<Rightarrow> bool" where
  \<comment> \<open>the white space and line terminators below 256 that \<open>trim\<close> removes\<close>
  "is_space c = ((of_char c :: nat) \<in> {9, 10, 11, 12, 13, 32, 160})"

definition js_trim :: "string \<Rightarrow> string" where
  "js_trim s = rev (dropWhile is_space (rev (dropWhile is_space s)))"

definition lower_char :: "char \<Rightarrow> char" where
  "lower_char c =
     (let n = (of_char c :: nat)
      in if (65 \<le> n \<and> n \<le> 90) \<or> (192 \<le> n \<and> n \<le> 222 \<and> n \<noteq> 215)
         then char_of (n + 32) else c)"

definition toLowerCase :: "string \<Rightarrow> string" where
  "toLowerCase s = map lower_char s"

fun opt_dot :: "string \<Rightarrow> string" where
  \<comment> \<open>the regular expression \<open>\.?\<close>: skip one dot if there is one\<close>
  "opt_dot [] = []"
| "opt_dot (c # cs) = (if c = CHR ''.'' then cs else c # cs)"

definition regex_na :: "string \<Rightarrow> bool" where
  \<comment> \<open>\<open>/^n\.?a\.?$/i.test(s)\<close>\<close>
  "regex_na s =
     (case s of
        [] \<Rightarrow> False
      | c # cs \<Rightarrow>
          (c = CHR ''n'' \<or> c = CHR ''N'') \<and>
          (case opt_dot cs of
             [] \<Rightarrow> False
           | a # rest \<Rightarrow> (a = CHR ''a'' \<or> a = CHR ''A'') \<and> opt_dot rest = []))"

subsection \<open>Object literals used as dictionaries\<close>

text \<open>
  An object created by \<open>{}\<close> keeps its own properties in creation order and inherits
  from \<open>Object.prototype\<close>.  Reading a name it does not own finds the inherited member,
  if there is one.  Writing under \<open>__proto__\<close> runs the inherited setter, which ignores
  a primitive value, so no own property appears.  \<open>Object.keys\<close> and
  \<open>Object.entries\<close> list the own names that are array indices first, in ascending
  numeric order, and then the others in creation order.
\<close>

type_synonym 'v props = "(string \<times> 'v) list"

definition object_prototype_keys :: "string list" where
  "object_prototype_keys =
     [''constructor'', ''__defineGetter__'', ''__defineSetter__'', ''hasOwnProperty'',
      ''__lookupGetter__'', ''__lookupSetter__'', ''isPrototypeOf'',
      ''propertyIsEnumerable'', ''toString'', ''valueOf'', ''__proto__'',
      ''toLocaleString'']"

definition obj_get :: "jsval props \<Rightarrow> string \<Rightarrow> jsval" where
  \<comment> \<open>\<open>o[k]\<close>\<close>
  "obj_get ob k =
     (case map_of ob k of
        Some v \<Rightarrow> v
      | None \<Rightarrow> if k \<in> set object_prototype_keys then JInherited k else Undefined)"

definition obj_set :: "'v props \<Rightarrow> string \<Rightarrow> 'v \<Rightarrow> 'v props" where
  \<comment> \<open>\<open>o[k] = v\<close> for a primitive \<open>v\<close>\<close>
  "obj_set ob k v =
     (if k = ''__proto__'' \<and> map_of ob k = None then ob else AList.update k v ob)"

definition is_digit :: "char \<Rightarrow> bool" where
  "is_digit c = (48 \<le> (of_char c :: nat) \<and> (of_char c :: nat) \<le> 57)"

definition dec_value :: "string \<Rightarrow> int" where
  "dec_value s = foldl (\<lambda>n c. 10 * n + (of_char c - 48)) 0 s"

definition is_array_index :: "string \<Rightarrow> bool" where
  \<comment> \<open>the canonical decimal numeral of an integer below \<open>2^32 - 1\<close>\<close>
  "is_array_index k =
     (k \<noteq> [] \<and> list_all is_digit k \<and> (k = ''0'' \<or> hd k \<noteq> CHR ''0'') \<and>
      length k \<le> 10 \<and> dec_value k < 4294967295)"

definition obj_keys :: "'v props \<Rightarrow> string list" where
  \<comment> \<open>\<open>Object.keys(o)\<close>\<close>
  "obj_keys ob =
     sort_key dec_value (filter is_array_index (map fst ob)) @
     filter (\<lambda>k. \<not> is_array_index k) (map fst ob)"

definition obj_entries :: "jsval props \<Rightarrow> (string \<times> jsval) list" where
  \<comment> \<open>\<open>Object.entries(o)\<close>\<close>
  "obj_entries ob = map (\<lambda>k. (k, obj_get ob k)) (obj_keys ob)"

subsection \<open>Dates\<close>

text \<open>
  A \<open>Date\<close> holds a time value: milliseconds since 1970-01-01T00:00:00Z, or \<open>NaN\<close>
  (here \<open>None\<close>).  \<open>toISOString\<close> prints the time value in UTC; the calendar fields
  are ECMAScript's \<open>YearFromTime\<close>, \<open>MonthFromTime\<close> and \<open>DateFromTime\<close>, computed by
  the usual conversion of a day number to a date of the proleptic Gregorian calendar.
\<close>

definition msPerDay :: int where
  "msPerDay = 86400000"

definition time_clip :: "rat \<Rightarrow> int option" where
  \<comment> \<open>\<open>TimeClip\<close>: out of range is \<open>NaN\<close>, otherwise truncate towards zero\<close>
  "time_clip q =
     (if \<bar>q\<bar> > 8640000000000000 then None
      else Some (if q \<ge> 0 then \<lfloor>q\<rfloor> else \<lceil>q\<rceil>))"

definition newDate :: "js_env \<Rightarrow> jsval \<Rightarrow> int option" where
  \<comment> \<open>the time value of \<open>new Date(v)\<close>: a string is parsed, anything else is a number\<close>
  "newDate env v =
     (if is_stringy v then
        (case dateParse env (ToString env v) of
           None \<Rightarrow> None
         | Some t \<Rightarrow> time_clip (of_int t))
      else
        (case ToNumber env v of
           NaN \<Rightarrow> None
         | Num q \<Rightarrow> time_clip q))"

definition year_of_era :: "int \<Rightarrow> int" where
  \<comment> \<open>the year within a 400-year era, from the day within the era\<close>
  "year_of_era doe = (doe - doe div 1460 + doe div 36524 - doe div 146096) div 365"

definition day_of_year :: "int \<Rightarrow> int \<Rightarrow> int" where
  \<comment> \<open>the day within a year that starts on 1 March\<close>
  "day_of_year doe yoe = doe - (365 * yoe + yoe div 4 - yoe div 100)"

definition month_of :: "int \<Rightarrow> int" where
  \<comment> \<open>the month (1..12) of a day of the year that starts on 1 March\<close>
  "month_of doy = (if (5 * doy + 2) div 153 < 10 then (5 * doy + 2) div 153 + 3
                   else (5 * doy + 2) div 153 - 9)"

definition day_of_month :: "int \<Rightarrow> int" where
  "day_of_month doy = doy - (153 * ((5 * doy + 2) div 153) + 2) div 5 + 1"

definition civil_of_era :: "int \<Rightarrow> int \<Rightarrow> int \<Rightarrow> int \<times> int \<times> int" where
  "civil_of_era era yoe doy =
     (yoe + era * 400 + (if month_of doy \<le> 2 then 1 else 0), month_of doy, day_of_month doy)"

definition civil_from_days :: "int \<Rightarrow> int \<times> int \<times> int" where
  \<comment> \<open>year, month (1..12) and day of the month of a day number; eras of 400 years start
      on 1 March of the year 0\<close>
  "civil_from_days z =
     civil_of_era ((z + 719468) div 146097) (year_of_era ((z + 719468) mod 146097))
       (day_of_year ((z + 719468) mod 146097) (year_of_era ((z + 719468) mod 146097)))"

definition digit_char :: "int \<Rightarrow> char" where
  \<comment> \<open>the last decimal digit of a number\<close>
  "digit_char n = ''0123456789'' ! nat (n mod 10)"

definition pad2 :: "int \<Rightarrow> string" where
  \<comment> \<open>the last two decimal digits, zero padded\<close>
  "pad2 n = [digit_char (n div 10), digit_char n]"

definition pad3 :: "int \<Rightarrow> string" where
  "pad3 n = digit_char (n div 100) # pad2 n"

definition pad4 :: "int \<Rightarrow> string" where
  "pad4 n = pad2 (n div 100) @ pad2 n"

definition pad6 :: "int \<Rightarrow> string" where
  "pad6 n = pad2 (n div 10000) @ pad4 n"

definition iso_year :: "int \<Rightarrow> string" where
  \<comment> \<open>four digits for the years 0 to 9999, a sign and six digits otherwise\<close>
  "iso_year y =
     (if 0 \<le> y \<and> y \<le> 9999 then pad4 y
      else (if y < 0 then ''-'' else ''+'') @ pad6 \<bar>y\<bar>)"

definition iso_date :: "int \<Rightarrow> string" where
  \<comment> \<open>the date part of \<open>toISOString\<close>\<close>
  "iso_date t =
     (case civil_from_days (t div msPerDay) of
        (y, m, d) \<Rightarrow> iso_year y @ ''-'' @ pad2 m @ ''-'' @ pad2 d)"

definition iso_time :: "int \<Rightarrow> string" where
  \<comment> \<open>the time part of \<open>toISOString\<close>\<close>
  "iso_time t =
     pad2 (t mod msPerDay div 3600000) @ '':'' @
     pad2 (t mod msPerDay div 60000 mod 60) @ '':'' @
     pad2 (t mod msPerDay div 1000 mod 60) @ ''.'' @
     pad3 (t mod msPerDay mod 1000)"

definition toISOString :: "int \<Rightarrow> string" where
  "toISOString t = iso_date t @ ''T'' @ iso_time t @ ''Z''"

definition split_T_first :: "string \<Rightarrow> string" where
  \<comment> \<open>\<open>s.split('T')[0]\<close>\<close>
  "split_T_first s = takeWhile (\<lambda>c. c \<noteq> CHR ''T'') s"

section \<open>Records and assignments\<close>

text \<open>
  A row is what the spreadsheet parser stores: the canonical fields and \<open>_raw\<close>, the
  original spreadsheet line (absent in rows that were built by hand).
\<close>

record row =
  person :: jsval
  raw :: "jsval props option"
  date :: jsval
  impounded :: jsval
  truckId :: jsval
  amountDue :: jsval
  gvmFine :: jsval
  d1Fine :: jsval
  d2Fine :: jsval
  d3Fine :: jsval
  d4Fine :: jsval
  awkwardLoadFine :: jsval
  amountDueDriver :: jsval

definition raw_get :: "row \<Rightarrow> string \<Rightarrow> jsval" where
  \<comment> \<open>\<open>r._raw?.[k]\<close>\<close>
  "raw_get r k = (case raw r of None \<Rightarrow> Undefined | Some ob \<Rightarrow> obj_get ob k)"

section \<open>The analytics routine\<close>

subsection \<open>Helpers of \<open>computeAdvancedAnalytics\<close>\<close>

definition isPlaceholderName :: "js_env \<Rightarrow> jsval \<Rightarrow> bool" where
  "isPlaceholderName env v =
     (if v = Undefined \<or> v = Null then True
      else
        let s = js_trim (ToString env v)
        in if s = [] then True
           else
             let low = toLowerCase s
             in low \<in> set [''n/a'', ''na'', ''none'', ''unknown'', ''-''] \<or> regex_na s)"

definition candidates :: "row \<Rightarrow> jsval list" where
  "candidates r =
     [person r, raw_get r ''User Full Name'', raw_get r ''Driver Name'', raw_get r ''Name'',
      raw_get r ''Driver'', raw_get r ''Owner Name'']"

fun first_name :: "js_env \<Rightarrow> jsval list \<Rightarrow> string" where
  \<comment> \<open>the loop over the candidates\<close>
  "first_name env [] = ''Unknown''"
| "first_name env (c # cs) =
     (if truthy c \<and> \<not> isPlaceholderName env c then js_trim (ToString env c)
      else first_name env cs)"

definition resolvePersonName :: "js_env \<Rightarrow> row \<Rightarrow> string" where
  "resolvePersonName env r = first_name env (candidates r)"

definition dateStr :: "row \<Rightarrow> jsval" where
  "dateStr r =
     js_or (js_or (js_or (js_or (date r) (raw_get r ''date'')) (raw_get r ''Date''))
       (raw_get r ''datetime'')) (raw_get r ''Datetime'')"

definition dayKey :: "js_env \<Rightarrow> row \<Rightarrow> string" where
  \<comment> \<open>\<open>new Date\<close> of a primitive and the guarded \<open>toISOString\<close> never throw, so the
      \<open>catch\<close> branch of the source is never taken\<close>
  "dayKey env r =
     (if truthy (dateStr r) then
        (case newDate env (dateStr r) of
           Some t \<Rightarrow> split_T_first (toISOString t)
         | None \<Rightarrow> ''Unknown Date'')
      else ''Unknown Date'')"

definition num_or0 :: "jsnum \<Rightarrow> jsnum" where
  \<comment> \<open>\<open>n || 0\<close> on a number\<close>
  "num_or0 n = (if truthy (JNum n) then n else Num 0)"

definition fine :: "js_env \<Rightarrow> jsval \<Rightarrow> jsval \<Rightarrow> jsnum" where
  \<comment> \<open>\<open>Number(a || b || 0) || 0\<close>\<close>
  "fine env a b = num_or0 (ToNumber env (js_or (js_or a b) (JNum (Num 0))))"

definition fines :: "js_env \<Rightarrow> row \<Rightarrow> jsnum list" where
  \<comment> \<open>\<open>amt\<close>, \<open>gvm\<close>, \<open>d1\<close>, \<open>d2\<close>, \<open>d3\<close>, \<open>d4\<close>, \<open>awk\<close>, \<open>amtDriver\<close>\<close>
  "fines env r =
     [fine env (amountDue r) (raw_get r ''Amount Due''),
      fine env (gvmFine r) (raw_get r ''GVM Fine''),
      fine env (d1Fine r) (raw_get r ''D1 Fine''),
      fine env (d2Fine r) (raw_get r ''D2 Fine''),
      fine env (d3Fine r) (raw_get r ''D3 Fine''),
      fine env (d4Fine r) (raw_get r ''D4 Fine''),
      fine env (awkwardLoadFine r) (raw_get r ''Awkward Load Fine''),
      fine env (amountDueDriver r) (raw_get r ''Amount Due Driver'')]"

definition rowRevenue :: "js_env \<Rightarrow> row \<Rightarrow> jsnum" where
  \<comment> \<open>\<open>amt + gvm + d1 + d2 + d3 + d4 + awk + amtDriver\<close>, added from the left\<close>
  "rowRevenue env r = foldl num_add (hd (fines env r)) (tl (fines env r))"

subsection \<open>The pass over the rows\<close>

text \<open>
  The local variables of \<open>computeAdvancedAnalytics\<close> that the loop updates.  A day's
  entry of \<open>dailyActivity\<close> is the object \<open>{ total, impounded }\<close>; \<open>truckIds\<close> is a
  \<open>Set\<close> of strings.  The three plain counters only ever grow by one.
\<close>

record day_activity =
  day_total :: nat
  day_impounded :: nat

record loop_state =
  perPersonCounts :: "jsval props"
  perPersonImpounded :: "jsval props"
  perPersonRevenue :: "jsval props"
  perGroupCounts :: "jsval props"
  perGroupRevenue :: "jsval props"
  perShiftCounts :: "jsval props"
  perShiftRevenue :: "jsval props"
  impoundedByShift :: "jsval props"
  impoundedByGroup :: "jsval props"
  dailyActivity :: "day_activity props"
  truckIds :: "string list"
  total :: nat
  totalImpounded :: nat
  totalRevenue :: jsnum

definition initial_state :: loop_state where
  "initial_state =
     \<lparr>perPersonCounts = [], perPersonImpounded = [], perPersonRevenue = [],
      perGroupCounts = [], perGroupRevenue = [], perShiftCounts = [], perShiftRevenue = [],
      impoundedByShift = [], impoundedByGroup = [], dailyActivity = [], truckIds = [],
      total = 0, totalImpounded = 0, totalRevenue = Num 0\<rparr>"

datatype js_error = TypeError

definition bump :: "js_env \<Rightarrow> jsval props \<Rightarrow> string \<Rightarrow> jsval \<Rightarrow> jsval props" where
  \<comment> \<open>\<open>o[k] = (o[k] || 0) + v\<close>\<close>
  "bump env ob k v = obj_set ob k (js_add env (js_or (obj_get ob k) (JNum (Num 0))) v)"

definition day_init :: "day_activity props \<Rightarrow> string \<Rightarrow> day_activity props" where
  \<comment> \<open>\<open>if (!dailyActivity[k]) dailyActivity[k] = { total: 0, impounded: 0 }\<close>; an own or
      inherited member is an object, hence truthy\<close>
  "day_init da k =
     (if map_of da k = None \<and> k \<notin> set object_prototype_keys
      then AList.update k \<lparr>day_total = 0, day_impounded = 0\<rparr> da else da)"

definition day_count :: "day_activity props \<Rightarrow> string \<Rightarrow> day_activity props" where
  \<comment> \<open>\<open>dailyActivity[k].total += 1\<close>; on an inherited member the own properties of
      \<open>dailyActivity\<close> stay as they are\<close>
  "day_count da k =
     (case map_of da k of
        Some d \<Rightarrow> AList.update k (d\<lparr>day_total := day_total d + 1\<rparr>) da
      | None \<Rightarrow> da)"

definition day_count_impounded :: "day_activity props \<Rightarrow> string \<Rightarrow> day_activity props" where
  \<comment> \<open>\<open>dailyActivity[k].impounded += 1\<close>\<close>
  "day_count_impounded da k =
     (case map_of da k of
        Some d \<Rightarrow> AList.update k (d\<lparr>day_impounded := day_impounded d + 1\<rparr>) da
      | None \<Rightarrow> da)"

definition track_truck :: "jsval \<Rightarrow> string list \<Rightarrow> js_error + string list" where
  \<comment> \<open>\<open>if (r.truckId && r.truckId.trim()) truckIds.add(r.truckId.trim())\<close>: only a
      string has a \<open>trim\<close> method, calling it on another truthy value throws\<close>
  "track_truck v ids =
     (if \<not> truthy v then Inr ids
      else
        (case v of
           JStr s \<Rightarrow> Inr (if js_trim s \<noteq> [] then List.insert (js_trim s) ids else ids)
         | _ \<Rightarrow> Inl TypeError))"

definition one :: jsval where
  "one = JNum (Num 1)"

definition process_row ::
  "js_env \<Rightarrow> jsval props \<Rightarrow> jsval props \<Rightarrow> loop_state \<Rightarrow> row \<Rightarrow> js_error + loop_state" where
  \<comment> \<open>the body of \<open>for (const r of rows)\<close>\<close>
  "process_row env peopleToGroup peopleToShift st r =
     (let person = resolvePersonName env r;
          grp = ToString env (js_or (obj_get peopleToGroup person) (JStr ''Unassigned''));
          shift = ToString env (js_or (obj_get peopleToShift person) (JStr ''Unassigned''));
          dk = dayKey env r;
          rev = rowRevenue env r;
          st1 = st\<lparr>total := total st + 1,
                   totalRevenue := num_add (totalRevenue st) rev,
                   perPersonRevenue := bump env (perPersonRevenue st) person (JNum rev),
                   perGroupRevenue := bump env (perGroupRevenue st) grp (JNum rev),
                   perShiftRevenue := bump env (perShiftRevenue st) shift (JNum rev),
                   perPersonCounts := bump env (perPersonCounts st) person one,
                   perGroupCounts := bump env (perGroupCounts st) grp one,
                   perShiftCounts := bump env (perShiftCounts st) shift one,
                   dailyActivity := day_count (day_init (dailyActivity st) dk) dk\<rparr>
      in case track_truck (truckId r) (truckIds st1) of
           Inl e \<Rightarrow> Inl e
         | Inr ids \<Rightarrow>
             let st2 = st1\<lparr>truckIds := ids\<rparr>
             in if truthy (impounded r) then
                  Inr (st2\<lparr>totalImpounded := totalImpounded st2 + 1,
                           perPersonImpounded := bump env (perPersonImpounded st2) person one,
                           impoundedByShift := bump env (impoundedByShift st2) shift one,
                           impoundedByGroup := bump env (impoundedByGroup st2) grp one,
                           dailyActivity := day_count_impounded (dailyActivity st2) dk\<rparr>)
                else Inr st2)"

fun process_rows ::
  "js_env \<Rightarrow> jsval props \<Rightarrow> jsval props \<Rightarrow> loop_state \<Rightarrow> row list \<Rightarrow> js_error + loop_state" where
  "process_rows env g s st [] = Inr st"
| "process_rows env g s st (r # rs) =
     (case process_row env g s st r of
        Inl e \<Rightarrow> Inl e
      | Inr st' \<Rightarrow> process_rows env g s st' rs)"

subsection \<open>The report\<close>

text \<open>
  The objects of the report.  A field whose name is taken by a field of the rows or of
  the loop state carries the prefix of its object.
\<close>

record person_row =
  pr_person :: string
  pr_group :: jsval
  pr_shift :: jsval
  trucks :: jsval
  pr_impounded :: jsval
  revenue :: jsval

record top_group =
  tg_name :: string
  tg_trucks :: jsval
  percentage :: jsnum

record top_revenue =
  tr_name :: string
  tr_revenue :: jsval

record alert =
  alert_type :: string
  title :: string
  message :: string

record trend_series =
  dates :: "string list"
  dailyCounts :: "nat list"
  dailyImpounded :: "nat list"

record basic_report =
  totalTrucks :: nat
  basic_totalImpounded :: nat
  basic_totalRevenue :: jsnum
  perPerson :: "jsval props"
  perGroup :: "jsval props"
  perShift :: "jsval props"
  peopleRows :: "person_row list"
  basic_perPersonRevenue :: "jsval props"
  basic_perGroupRevenue :: "jsval props"
  basic_perShiftRevenue :: "jsval props"

record stats_report =
  uniquePeople :: nat
  avgTrucksPerPerson :: jsnum
  impoundedRate :: jsnum
  topPerformer :: "person_row option"
  topGroup :: top_group
  uniqueTrucks :: nat
  topRevenuePerformer :: top_revenue

record report =
  basic :: basic_report
  stats :: stats_report
  report_impoundedByShift :: "jsval props"
  report_impoundedByGroup :: "jsval props"
  alerts :: "alert list"
  trends :: "trend_series option"
  report_dailyActivity :: "day_activity props"

definition mk_peopleRows ::
  "js_env \<Rightarrow> jsval props \<Rightarrow> jsval props \<Rightarrow> jsval props \<Rightarrow> jsval props \<Rightarrow> jsval props \<Rightarrow>
   person_row list" where
  \<comment> \<open>\<open>Object.keys(perPersonCounts).sort().map(...)\<close>; the default \<open>sort\<close> compares the
      names by code units\<close>
  "mk_peopleRows env peopleToGroup peopleToShift counts impoundedCounts revenues =
     map (\<lambda>p.
       \<lparr>pr_person = p,
        pr_group = js_or (obj_get peopleToGroup p) (JStr ''Unassigned''),
        pr_shift = js_or (obj_get peopleToShift p) (JStr ''Unassigned''),
        trucks = js_or (obj_get counts p) (JNum (Num 0)),
        pr_impounded = js_or (obj_get impoundedCounts p) (JNum (Num 0)),
        revenue = js_or (obj_get revenues p) (JNum (Num 0))\<rparr>)
       (sort (obj_keys counts))"

definition real_person :: "js_env \<Rightarrow> string \<Rightarrow> bool" where
  \<comment> \<open>\<open>p && !isPlaceholderName(p) && p !== 'Unknown'\<close>\<close>
  "real_person env p =
     (truthy (JStr p) \<and> \<not> isPlaceholderName env (JStr p) \<and> p \<noteq> ''Unknown'')"

definition mk_uniquePeople :: "js_env \<Rightarrow> jsval props \<Rightarrow> nat" where
  "mk_uniquePeople env counts =
     length (filter (\<lambda>p. \<not> isPlaceholderName env (JStr p) \<and> p \<noteq> ''Unknown'')
       (obj_keys counts))"

definition mk_avgTrucksPerPerson :: "nat \<Rightarrow> nat \<Rightarrow> jsnum" where
  \<comment> \<open>\<open>uniquePeople > 0 ? total / uniquePeople : 0\<close>\<close>
  "mk_avgTrucksPerPerson tot uniq = (if uniq > 0 then Num (of_nat tot / of_nat uniq) else Num 0)"

definition mk_impoundedRate :: "nat \<Rightarrow> nat \<Rightarrow> jsnum" where
  \<comment> \<open>\<open>total > 0 ? (totalImpounded / total) * 100 : 0\<close>\<close>
  "mk_impoundedRate tot imp = (if tot > 0 then Num (of_nat imp / of_nat tot * 100) else Num 0)"

definition better_row :: "js_env \<Rightarrow> person_row option \<Rightarrow> person_row \<Rightarrow> person_row option" where
  \<comment> \<open>\<open>(max, person) => (person.trucks > (max.trucks || 0) ? person : max)\<close>; the start
      value \<open>{}\<close> is \<open>None\<close> and has no \<open>trucks\<close>\<close>
  "better_row env mx p =
     (if js_gt env (trucks p)
           (js_or (case mx of None \<Rightarrow> Undefined | Some m \<Rightarrow> trucks m) (JNum (Num 0)))
      then Some p else mx)"

definition mk_topPerformer :: "js_env \<Rightarrow> person_row list \<Rightarrow> person_row option" where
  "mk_topPerformer env rows =
     foldl (better_row env) None (filter (\<lambda>p. real_person env (pr_person p)) rows)"

definition better_entry :: "js_env \<Rightarrow> string \<times> jsval \<Rightarrow> string \<times> jsval \<Rightarrow> string \<times> jsval" where
  \<comment> \<open>\<open>(max, [k, v]) => (v > (max[1] || 0) ? [k, v] : max)\<close>\<close>
  "better_entry env mx e =
     (if js_gt env (snd e) (js_or (snd mx) (JNum (Num 0))) then e else mx)"

definition num_div :: "jsnum \<Rightarrow> jsnum \<Rightarrow> jsnum" where
  \<comment> \<open>division by a number that is not zero\<close>
  "num_div a b =
     (case (a, b) of
        (Num x, Num y) \<Rightarrow> if y = 0 then NaN else Num (x / y)
      | _ \<Rightarrow> NaN)"

definition mk_topGroup :: "js_env \<Rightarrow> jsval props \<Rightarrow> nat \<Rightarrow> top_group" where
  "mk_topGroup env counts tot =
     (let topGroupEntry = foldl (better_entry env) ([], JNum (Num 0)) (obj_entries counts)
      in \<lparr>tg_name = fst topGroupEntry,
          tg_trucks = snd topGroupEntry,
          percentage =
            (if tot > 0
             then num_mul (num_div (ToNumber env (snd topGroupEntry)) (Num (of_nat tot)))
                    (Num 100)
             else Num 0)\<rparr>)"

definition topRevenuePerformerEntry :: "js_env \<Rightarrow> jsval props \<Rightarrow> string \<times> jsval" where
  "topRevenuePerformerEntry env revenues =
     foldl (better_entry env) ([], JNum (Num 0))
       (filter (\<lambda>e. real_person env (fst e)) (obj_entries revenues))"

definition mk_topRevenuePerformer :: "js_env \<Rightarrow> jsval props \<Rightarrow> top_revenue" where
  \<comment> \<open>\<open>{ name: entry[0] || 'Unknown', revenue: entry[1] || 0 }\<close>\<close>
  "mk_topRevenuePerformer env revenues =
     (let e = topRevenuePerformerEntry env revenues
      in \<lparr>tr_name = (if fst e \<noteq> [] then fst e else ''Unknown''),
          tr_revenue = js_or (snd e) (JNum (Num 0))\<rparr>)"

definition rate_alerts :: "js_env \<Rightarrow> jsnum \<Rightarrow> alert list" where
  \<comment> \<open>\<open>if (impoundedRate > 15) ... else if (impoundedRate > 10) ...\<close>\<close>
  "rate_alerts env rate =
     (if num_gt rate (Num 15) then
        [\<lparr>alert_type = ''danger'', title = ''High Impound Rate Alert'',
          message = ''Current impound rate is '' @ toFixed1 env rate @
            ''%, which is concerning. Consider reviewing processes.''\<rparr>]
      else if num_gt rate (Num 10) then
        [\<lparr>alert_type = ''warning'', title = ''Elevated Impound Rate'',
          message = ''Impound rate is '' @ toFixed1 env rate @
            ''%. Monitor closely to prevent further increases.''\<rparr>]
      else [])"

definition gap_alerts :: "js_env \<Rightarrow> person_row list \<Rightarrow> jsnum \<Rightarrow> alert list" where
  \<comment> \<open>the rows with \<open>p.trucks < avgTrucksPerPerson * 0.5\<close>\<close>
  "gap_alerts env rows avg =
     (let underPerformers =
            filter (\<lambda>p. js_lt env (trucks p) (JNum (num_mul avg (Num (1 / 2))))) rows
      in if length underPerformers > 0 then
           [\<lparr>alert_type = ''warning'', title = ''Performance Gap Identified'',
             message = numberToString env (Num (of_nat (length underPerformers))) @
               '' team members are performing significantly below average. Consider additional training.''\<rparr>]
         else [])"

definition assignment_alerts :: "js_env \<Rightarrow> person_row list \<Rightarrow> alert list" where
  \<comment> \<open>the rows with \<open>p.group === 'Unassigned' || p.shift === 'Unassigned'\<close>\<close>
  "assignment_alerts env rows =
     (let unassignedCount =
            length (filter (\<lambda>p. pr_group p = JStr ''Unassigned'' \<or> pr_shift p = JStr ''Unassigned'')
              rows)
      in if unassignedCount > 0 then
           [\<lparr>alert_type = ''info'', title = ''Assignment Needed'',
             message = numberToString env (Num (of_nat unassignedCount)) @
               '' team members need group or shift assignments for better organization.''\<rparr>]
         else [])"

definition day_entry :: "day_activity props \<Rightarrow> string \<Rightarrow> day_activity" where
  \<comment> \<open>\<open>dailyActivity[k]\<close> for an own name \<open>k\<close> (the names come from \<open>Object.keys\<close>)\<close>
  "day_entry da k =
     (case map_of da k of Some d \<Rightarrow> d | None \<Rightarrow> \<lparr>day_total = 0, day_impounded = 0\<rparr>)"

definition mk_trends :: "js_env \<Rightarrow> day_activity props \<Rightarrow> trend_series option" where
  "mk_trends env da =
     (let sortedDates = sort (obj_keys da)
      in if length sortedDates > 1 then
           Some \<lparr>dates =
                   map (\<lambda>d. if d = ''Unknown Date'' then d
                            else toLocaleDateString env (newDate env (JStr d))) sortedDates,
                 dailyCounts = map (\<lambda>d. day_total (day_entry da d)) sortedDates,
                 dailyImpounded = map (\<lambda>d. day_impounded (day_entry da d)) sortedDates\<rparr>
         else None)"

definition mk_report :: "js_env \<Rightarrow> jsval props \<Rightarrow> jsval props \<Rightarrow> loop_state \<Rightarrow> report" where
  \<comment> \<open>everything after the loop\<close>
  "mk_report env peopleToGroup peopleToShift st =
     (let rows = mk_peopleRows env peopleToGroup peopleToShift (perPersonCounts st)
                   (perPersonImpounded st) (perPersonRevenue st);
          uniq = mk_uniquePeople env (perPersonCounts st);
          avg = mk_avgTrucksPerPerson (total st) uniq;
          rate = mk_impoundedRate (total st) (totalImpounded st)
      in \<lparr>basic =
            \<lparr>totalTrucks = total st,
             basic_totalImpounded = totalImpounded st,
             basic_totalRevenue = totalRevenue st,
             perPerson = perPersonCounts st,
             perGroup = perGroupCounts st,
             perShift = perShiftCounts st,
             peopleRows = rows,
             basic_perPersonRevenue = perPersonRevenue st,
             basic_perGroupRevenue = perGroupRevenue st,
             basic_perShiftRevenue = perShiftRevenue st\<rparr>,
          stats =
            \<lparr>uniquePeople = uniq,
             avgTrucksPerPerson = avg,
             impoundedRate = rate,
             topPerformer = mk_topPerformer env rows,
             topGroup = mk_topGroup env (perGroupCounts st) (total st),
             uniqueTrucks = length (truckIds st),
             topRevenuePerformer = mk_topRevenuePerformer env (perPersonRevenue st)\<rparr>,
          report_impoundedByShift = impoundedByShift st,
          report_impoundedByGroup = impoundedByGroup st,
          alerts = rate_alerts env rate @ gap_alerts env rows avg @ assignment_alerts env rows,
          trends = mk_trends env (dailyActivity st),
          report_dailyActivity = dailyActivity st\<rparr>)"

definition computeAdvancedAnalytics ::
  "js_env \<Rightarrow> row list \<Rightarrow> jsval props \<Rightarrow> jsval props \<Rightarrow> js_error + report" where
  "computeAdvancedAnalytics env rows peopleToGroup peopleToShift =
     (case process_rows env peopleToGroup peopleToShift initial_state rows of
        Inl e \<Rightarrow> Inl e
      | Inr st \<Rightarrow> Inr (mk_report env peopleToGroup peopleToShift st))"

section \<open>Notions of the specification\<close>

text \<open>
  What the specification talks about and the routine does not compute: the order in which
  names are first seen, the calendar date on the clock of a time zone that is
  \<open>offset\<close> milliseconds ahead of UTC, the shape \<open>YYYY-MM-DD\<close>, and the two kinds of
  impound-rate alert.
\<close>

definition local_date :: "int \<Rightarrow> int \<Rightarrow> string" where
  "local_date offset t = iso_date (t + offset)"

definition is_ymd :: "string \<Rightarrow> bool" where
  "is_ymd s =
     (length s = 10 \<and> s ! 4 = CHR ''-'' \<and> s ! 7 = CHR ''-'' \<and>
      list_all is_digit (take 4 s) \<and> list_all is_digit (take 2 (drop 5 s)) \<and>
      list_all is_digit (drop 8 s))"

definition is_danger :: "alert \<Rightarrow> bool" where
  "is_danger a = (alert_type a = ''danger'')"

definition is_rate_warning :: "alert \<Rightarrow> bool" where
  "is_rate_warning a = (alert_type a = ''warning'' \<and> title a = ''Elevated Impound Rate'')"

definition date_chars :: "char set" where
  \<comment> \<open>the characters of the date part of an ISO string\<close>
  "date_chars = set ''0123456789+-''"

subsection \<open>Counting records by name\<close>

definition records_of :: "js_env \<Rightarrow> row list \<Rightarrow> string \<Rightarrow> nat" where
  \<comment> \<open>how many records resolve to a name\<close>
  "records_of env rows n = length (filter (\<lambda>r. resolvePersonName env r = n) rows)"

definition rat_of :: "jsnum \<Rightarrow> rat" where
  \<comment> \<open>the rational a number stands for, 0 for \<open>NaN\<close>\<close>
  "rat_of n = (case n of Num q \<Rightarrow> q | NaN \<Rightarrow> 0)"

definition revenue_of :: "js_env \<Rightarrow> row list \<Rightarrow> string \<Rightarrow> rat" where
  \<comment> \<open>the summed revenue of the records that resolve to a name\<close>
  "revenue_of env rows n =
     sum_list (map (\<lambda>r. rat_of (rowRevenue env r))
       (filter (\<lambda>r. resolvePersonName env r = n) rows))"

definition sum_counts :: "js_env \<Rightarrow> jsval props \<Rightarrow> jsval" where
  \<comment> \<open>\<open>Object.values(o).reduce((a, b) => a + b, 0)\<close>\<close>
  "sum_counts env ob = foldl (js_add env) (JNum (Num 0)) (map snd (obj_entries ob))"

subsection \<open>Names for what the loop does to one accumulator\<close>

definition bucket_key :: "js_env \<Rightarrow> jsval props \<Rightarrow> row \<Rightarrow> string" where
  \<comment> \<open>the property name under which a row is counted in the per-group (per-shift)
      accumulators: \<open>peopleToGroup[person] || 'Unassigned'\<close>, used as a key\<close>
  "bucket_key env assignment r =
     ToString env (js_or (obj_get assignment (resolvePersonName env r)) (JStr ''Unassigned''))"

definition tally :: "js_env \<Rightarrow> jsval props \<Rightarrow> (string \<times> jsval) list \<Rightarrow> jsval props" where
  \<comment> \<open>a run of \<open>o[k] = (o[k] || 0) + v\<close>, one for each pair\<close>
  "tally env ob kvs = foldl (\<lambda>acc kv. bump env acc (fst kv) (snd kv)) ob kvs"

definition day_step :: "day_activity props \<Rightarrow> string \<times> bool \<Rightarrow> day_activity props" where
  \<comment> \<open>what one row does to \<open>dailyActivity\<close>, given its day key and whether it is impounded\<close>
  "day_step da kb =
     (if snd kb then day_count_impounded (day_count (day_init da (fst kb)) (fst kb)) (fst kb)
      else day_count (day_init da (fst kb)) (fst kb))"

fun first_seen :: "'a list \<Rightarrow> 'a list" where
  \<comment> \<open>the elements in the order of their first occurrence\<close>
  "first_seen [] = []"
| "first_seen (x # xs) = x # removeAll x (first_seen xs)"

text \<open>A view of an accumulator as numbers.\<close>

definition num_of :: "jsval \<Rightarrow> rat" where
  \<comment> \<open>the rational a numeric value stands for\<close>
  "num_of v = (case v of JNum (Num q) \<Rightarrow> q | _ \<Rightarrow> 0)"

definition is_num :: "jsval \<Rightarrow> bool" where
  \<comment> \<open>a number that is not \<open>NaN\<close>\<close>
  "is_num v = (case v of JNum (Num q) \<Rightarrow> True | _ \<Rightarrow> False)"

definition held :: "jsval props \<Rightarrow> string \<Rightarrow> jsval" where
  \<comment> \<open>the own value under a name, 0 when there is none\<close>
  "held ob k = (case map_of ob k of Some v \<Rightarrow> v | None \<Rightarrow> JNum (Num 0))"

definition key_sum :: "string \<Rightarrow> (string \<times> jsval) list \<Rightarrow> rat" where
  \<comment> \<open>the sum of the numbers paired with a name\<close>
  "key_sum k kvs = sum_list (map (\<lambda>kv. num_of (snd kv)) (filter (\<lambda>kv. fst kv = k) kvs))"



section \<open>Sample inputs\<close>

text \<open>
  An environment for the examples.  Its \<open>Date.parse\<close> knows the date strings the examples
  use (a date-only ISO string is midnight UTC, an ISO string with an offset is the instant
  it names); its \<open>Number\<close> reads unsigned decimal integers; the integers from 0 to
  999 print as in ECMAScript and \<open>toFixed(1)\<close> is right below 1000, which is all the
  examples need; the locale prints ISO dates in the UTC zone.
\<close>

definition show_small :: "int \<Rightarrow> string" where
  \<comment> \<open>the decimal numeral of a number from 0 to 999\<close>
  "show_small n =
     (if n < 10 then [digit_char n] else if n < 100 then pad2 n else pad3 n)"

definition sample_dateParse :: "string \<Rightarrow> int option" where
  "sample_dateParse s =
     (if s = ''2024-01-01'' then Some 1704067200000
      else if s = ''2024-01-02'' then Some 1704153600000
      else if s = ''2024-01-01T22:00:00-05:00'' then Some 1704164400000
      else None)"

definition sample_stringToNumber :: "string \<Rightarrow> jsnum" where
  "sample_stringToNumber s =
     (let t = js_trim s
      in if t = [] then Num 0
         else if list_all is_digit t then Num (of_int (dec_value t))
         else NaN)"

definition sample_numberToString :: "jsnum \<Rightarrow> string" where
  "sample_numberToString n =
     (case n of
        NaN \<Rightarrow> ''NaN''
      | Num q \<Rightarrow> if 0 \<le> q \<and> q < 1000 \<and> of_int \<lfloor>q\<rfloor> = q then show_small \<lfloor>q\<rfloor> else ''?'')"

definition sample_toFixed1 :: "jsnum \<Rightarrow> string" where
  "sample_toFixed1 n =
     (case n of
        NaN \<Rightarrow> ''NaN''
      | Num q \<Rightarrow>
          if 0 \<le> q \<and> q < 1000 then
            show_small (\<lfloor>10 * q + 1 / 2\<rfloor> div 10) @ ''.'' @ [digit_char \<lfloor>10 * q + 1 / 2\<rfloor>]
          else ''?'')"

definition sample_nativeText :: "string \<Rightarrow> string" where
  "sample_nativeText k =
     (if k = ''__proto__'' then ''[object Object]''
      else if k = ''constructor'' then ''function Object() { [native code] }''
      else ''function '' @ k @ ''() { [native code] }'')"

definition sample_env :: js_env where
  "sample_env =
     \<lparr>dateParse = sample_dateParse,
      stringToNumber = sample_stringToNumber,
      numberToString = sample_numberToString,
      nativeText = sample_nativeText,
      toFixed1 = sample_toFixed1,
      toLocaleDateString = (\<lambda>t. case t of None \<Rightarrow> ''Invalid Date'' | Some t \<Rightarrow> iso_date t)\<rparr>"

definition blank_row :: row where
  \<comment> \<open>the record \<open>{}\<close>\<close>
  "blank_row =
     \<lparr>person = Undefined, raw = None, date = Undefined, impounded = Undefined,
      truckId = Undefined, amountDue = Undefined, gvmFine = Undefined, d1Fine = Undefined,
      d2Fine = Undefined, d3Fine = Undefined, d4Fine = Undefined,
      awkwardLoadFine = Undefined, amountDueDriver = Undefined\<rparr>"

definition scenario_rows :: "row list" where
  \<comment> \<open>the example scenario of the specification\<close>
  "scenario_rows =
     [blank_row\<lparr>person := JStr ''John'', amountDue := JNum (Num 100),
        date := JStr ''2024-01-01''\<rparr>,
      blank_row\<lparr>person := JStr ''John'', gvmFine := JNum (Num 50),
        date := JStr ''2024-01-02''\<rparr>,
      blank_row\<lparr>person := JStr ''Jane'', d1Fine := JNum (Num 25),
        date := JStr ''2024-01-01'', impounded := JBool True\<rparr>]"

definition dated_row :: "string \<Rightarrow> row" where
  \<comment> \<open>the record \<open>{ date: d }\<close>\<close>
  "dated_row d = blank_row\<lparr>date := JStr d\<rparr>"

definition named_row :: "string \<Rightarrow> row" where
  \<comment> \<open>the record \<open>{ person: n }\<close>\<close>
  "named_row n = blank_row\<lparr>person := JStr n\<rparr>"


definition impound_rows :: "nat \<Rightarrow> nat \<Rightarrow> row list" where
  \<comment> \<open>\<open>k\<close> impounded records followed by \<open>n\<close> records that are not\<close>
  "impound_rows k n =
     replicate k (blank_row\<lparr>impounded := JBool True\<rparr>) @ replicate n blank_row"

section \<open>Properties\<close>

subsection \<open>The model on examples\<close>

text \<open>Known dates, among them the two ends of the range of time values.\<close>

lemma calendar_examples:
  "civil_from_days 0 = (1970, 1, 1)"
  "civil_from_days (- 1) = (1969, 12, 31)"
  "civil_from_days 11016 = (2000, 2, 29)"
  "civil_from_days 19782 = (2024, 2, 29)"
  "civil_from_days 19783 = (2024, 3, 1)"
  "toISOString 1704164400000 = ''2024-01-02T03:00:00.000Z''"
  "toISOString (- 1) = ''1969-12-31T23:59:59.999Z''"
  "toISOString 8640000000000000 = ''+275760-09-13T00:00:00.000Z''"
  "toISOString (- 8640000000000000) = ''-271821-04-20T00:00:00.000Z''"
  by code_simp+

text \<open>
  The routine can throw: a truck identifier that is a number (a numeric spreadsheet cell)
  has no \<open>trim\<close> method.  The properties below are about the reports that are produced.
\<close>

lemma numeric_truckId_throws:
  "computeAdvancedAnalytics env [blank_row\<lparr>truckId := JNum (Num 12)\<rparr>] g s = Inl TypeError"
  by (simp add: computeAdvancedAnalytics_def process_row_def track_truck_def blank_row_def
      Let_def)

text \<open>The example scenario of the specification.\<close>

lemma example_scenario:
  "\<not> isl (computeAdvancedAnalytics sample_env scenario_rows [] [])"
  "perPerson (basic (projr (computeAdvancedAnalytics sample_env scenario_rows [] []))) =
     [(''John'', JNum (Num 2)), (''Jane'', JNum (Num 1))]"
  "basic_perPersonRevenue (basic (projr (computeAdvancedAnalytics sample_env scenario_rows [] []))) =
     [(''John'', JNum (Num 150)), (''Jane'', JNum (Num 25))]"
  "impoundedRate (stats (projr (computeAdvancedAnalytics sample_env scenario_rows [] []))) =
     Num (100 / 3)"
  "map_option dailyCounts (trends (projr (computeAdvancedAnalytics sample_env scenario_rows [] []))) =
     Some [2, 1]"
  "map_option dailyImpounded (trends (projr (computeAdvancedAnalytics sample_env scenario_rows [] []))) =
     Some [1, 0]"
  "map fst (report_dailyActivity (projr (computeAdvancedAnalytics sample_env scenario_rows [] []))) =
     [''2024-01-01'', ''2024-01-02'']"
  "map_option pr_person (topPerformer (stats (projr (computeAdvancedAnalytics sample_env
     scenario_rows [] [])))) = Some ''John''"
  "topRevenuePerformer (stats (projr (computeAdvancedAnalytics sample_env scenario_rows [] []))) =
     \<lparr>tr_name = ''John'', tr_revenue = JNum (Num 150)\<rparr>"
  "map alert_type (alerts (projr (computeAdvancedAnalytics sample_env scenario_rows [] []))) =
     [''danger'', ''info'']"
  by code_simp+

subsection \<open>The empty record list\<close>

text \<open>
  Claim C9.  For the empty record list, whatever the assignments, the routine returns a
  report and raises nothing: every count and the revenue are zero, the per-person,
  per-group and per-shift mappings are empty, there is no alert, \<open>uniquePeople\<close>,
  \<open>avgTrucksPerPerson\<close> and \<open>impoundedRate\<close> are 0.  The remaining fields are at their
  start values: no top performer, no trend series, and the top revenue performer is the
  default \<open>Unknown\<close> with revenue 0.
\<close>

theorem empty_record_list_report:
  "computeAdvancedAnalytics env [] peopleToGroup peopleToShift =
     Inr \<lparr>basic =
            \<lparr>totalTrucks = 0, basic_totalImpounded = 0, basic_totalRevenue = Num 0,
             perPerson = [], perGroup = [], perShift = [], peopleRows = [],
             basic_perPersonRevenue = [], basic_perGroupRevenue = [],
             basic_perShiftRevenue = []\<rparr>,
          stats =
            \<lparr>uniquePeople = 0, avgTrucksPerPerson = Num 0, impoundedRate = Num 0,
             topPerformer = None,
             topGroup = \<lparr>tg_name = [], tg_trucks = JNum (Num 0), percentage = Num 0\<rparr>,
             uniqueTrucks = 0,
             topRevenuePerformer = \<lparr>tr_name = ''Unknown'', tr_revenue = JNum (Num 0)\<rparr>\<rparr>,
          report_impoundedByShift = [], report_impoundedByGroup = [],
          alerts = [], trends = None, report_dailyActivity = []\<rparr>"
  by (simp add: computeAdvancedAnalytics_def initial_state_def mk_report_def
      mk_peopleRows_def mk_uniquePeople_def mk_avgTrucksPerPerson_def mk_impoundedRate_def
      mk_topPerformer_def mk_topGroup_def mk_topRevenuePerformer_def
      topRevenuePerformerEntry_def obj_entries_def obj_keys_def rate_alerts_def
      gap_alerts_def assignment_alerts_def mk_trends_def js_or_def Let_def)

subsection \<open>The loop and the report, field by field\<close>

lemma process_row_truck:
  assumes "process_row env g s st r = Inr st'"
  obtains ids where "track_truck (truckId r) (truckIds st) = Inr ids"
  using assms unfolding process_row_def Let_def
  by (cases "track_truck (truckId r) (truckIds st)") simp_all

lemma process_row_fields:
  assumes "process_row env g s st r = Inr st'"
  shows "total st' = total st + 1"
    and "totalImpounded st' = totalImpounded st + (if truthy (impounded r) then 1 else 0)"
    and "totalRevenue st' = num_add (totalRevenue st) (rowRevenue env r)"
    and "perPersonCounts st' = bump env (perPersonCounts st) (resolvePersonName env r) one"
    and "perPersonRevenue st' =
           bump env (perPersonRevenue st) (resolvePersonName env r) (JNum (rowRevenue env r))"
    and "perGroupCounts st' = bump env (perGroupCounts st) (bucket_key env g r) one"
    and "perShiftCounts st' = bump env (perShiftCounts st) (bucket_key env s r) one"
    and "dailyActivity st' = day_step (dailyActivity st) (dayKey env r, truthy (impounded r))"
proof -
  from assms obtain ids where t: "track_truck (truckId r) (truckIds st) = Inr ids"
    by (rule process_row_truck)
  have st': "st' = (let person = resolvePersonName env r;
          grp = bucket_key env g r;
          shift = bucket_key env s r;
          dk = dayKey env r;
          rev = rowRevenue env r;
          st1 = st\<lparr>total := total st + 1,
                   totalRevenue := num_add (totalRevenue st) rev,
                   perPersonRevenue := bump env (perPersonRevenue st) person (JNum rev),
                   perGroupRevenue := bump env (perGroupRevenue st) grp (JNum rev),
                   perShiftRevenue := bump env (perShiftRevenue st) shift (JNum rev),
                   perPersonCounts := bump env (perPersonCounts st) person one,
                   perGroupCounts := bump env (perGroupCounts st) grp one,
                   perShiftCounts := bump env (perShiftCounts st) shift one,
                   dailyActivity := day_count (day_init (dailyActivity st) dk) dk\<rparr>;
          st2 = st1\<lparr>truckIds := ids\<rparr>
             in if truthy (impounded r) then
                  (st2\<lparr>totalImpounded := totalImpounded st2 + 1,
                           perPersonImpounded := bump env (perPersonImpounded st2) person one,
                           impoundedByShift := bump env (impoundedByShift st2) shift one,
                           impoundedByGroup := bump env (impoundedByGroup st2) grp one,
                           dailyActivity := day_count_impounded (dailyActivity st2) dk\<rparr>)
                else st2)"
    using assms t unfolding process_row_def bucket_key_def Let_def
    by (cases "truthy (impounded r)") simp_all
  show "total st' = total st + 1" by (simp add: st' Let_def)
  show "totalImpounded st' = totalImpounded st + (if truthy (impounded r) then 1 else 0)"
    by (simp add: st' Let_def)
  show "totalRevenue st' = num_add (totalRevenue st) (rowRevenue env r)"
    by (simp add: st' Let_def)
  show "perPersonCounts st' = bump env (perPersonCounts st) (resolvePersonName env r) one"
    by (simp add: st' Let_def)
  show "perPersonRevenue st' =
           bump env (perPersonRevenue st) (resolvePersonName env r) (JNum (rowRevenue env r))"
    by (simp add: st' Let_def)
  show "perGroupCounts st' = bump env (perGroupCounts st) (bucket_key env g r) one"
    by (simp add: st' Let_def)
  show "perShiftCounts st' = bump env (perShiftCounts st) (bucket_key env s r) one"
    by (simp add: st' Let_def)
  show "dailyActivity st' = day_step (dailyActivity st) (dayKey env r, truthy (impounded r))"
    by (simp add: st' Let_def day_step_def)
qed

text \<open>The same for the whole loop, by induction on the rows.\<close>

lemma process_rows_fields:
  assumes "process_rows env g s st rows = Inr st'"
  shows "total st' = total st + length rows \<and>
         totalImpounded st' =
           totalImpounded st + length (filter (\<lambda>r. truthy (impounded r)) rows) \<and>
         perPersonCounts st' =
           tally env (perPersonCounts st) (map (\<lambda>r. (resolvePersonName env r, one)) rows) \<and>
         perPersonRevenue st' =
           tally env (perPersonRevenue st)
             (map (\<lambda>r. (resolvePersonName env r, JNum (rowRevenue env r))) rows) \<and>
         perGroupCounts st' =
           tally env (perGroupCounts st) (map (\<lambda>r. (bucket_key env g r, one)) rows) \<and>
         perShiftCounts st' =
           tally env (perShiftCounts st) (map (\<lambda>r. (bucket_key env s r, one)) rows) \<and>
         dailyActivity st' =
           foldl day_step (dailyActivity st)
             (map (\<lambda>r. (dayKey env r, truthy (impounded r))) rows)"
  using assms
proof (induction rows arbitrary: st)
  case Nil
  then show ?case by (simp add: tally_def)
next
  case (Cons r rs)
  then obtain st1 where a: "process_row env g s st r = Inr st1"
    and b: "process_rows env g s st1 rs = Inr st'"
    by (auto split: sum.splits)
  from Cons.IH[OF b] process_row_fields[OF a] show ?case
    by (simp add: tally_def)
qed

text \<open>A report exists exactly when the loop ran through; it is built from the final state.\<close>

lemma report_of_run:
  assumes "computeAdvancedAnalytics env rows g s = Inr rep"
  obtains st where "process_rows env g s initial_state rows = Inr st"
    and "rep = mk_report env g s st"
  using assms by (auto simp: computeAdvancedAnalytics_def split: sum.splits)

lemma report_fields:
  assumes "computeAdvancedAnalytics env rows g s = Inr rep"
  shows "totalTrucks (basic rep) = length rows"
    and "basic_totalImpounded (basic rep) = length (filter (\<lambda>r. truthy (impounded r)) rows)"
    and "impoundedRate (stats rep) =
           mk_impoundedRate (totalTrucks (basic rep)) (basic_totalImpounded (basic rep))"
    and "alerts rep =
           rate_alerts env (impoundedRate (stats rep)) @
           gap_alerts env (peopleRows (basic rep)) (avgTrucksPerPerson (stats rep)) @
           assignment_alerts env (peopleRows (basic rep))"
    and "perPerson (basic rep) = tally env [] (map (\<lambda>r. (resolvePersonName env r, one)) rows)"
    and "basic_perPersonRevenue (basic rep) =
           tally env [] (map (\<lambda>r. (resolvePersonName env r, JNum (rowRevenue env r))) rows)"
    and "perGroup (basic rep) = tally env [] (map (\<lambda>r. (bucket_key env g r, one)) rows)"
    and "perShift (basic rep) = tally env [] (map (\<lambda>r. (bucket_key env s r, one)) rows)"
    and "report_dailyActivity rep =
           foldl day_step [] (map (\<lambda>r. (dayKey env r, truthy (impounded r))) rows)"
    and "trends rep = mk_trends env (report_dailyActivity rep)"
    and "uniquePeople (stats rep) = mk_uniquePeople env (perPerson (basic rep))"
    and "topPerformer (stats rep) = mk_topPerformer env (peopleRows (basic rep))"
    and "topRevenuePerformer (stats rep) =
           mk_topRevenuePerformer env (basic_perPersonRevenue (basic rep))"
    and "\<exists>impoundedCounts. peopleRows (basic rep) =
           mk_peopleRows env g s (perPerson (basic rep)) impoundedCounts
             (basic_perPersonRevenue (basic rep))"
proof -
  from assms obtain st where run: "process_rows env g s initial_state rows = Inr st"
    and rep: "rep = mk_report env g s st"
    by (rule report_of_run)
  note f = process_rows_fields[OF run]
  show "totalTrucks (basic rep) = length rows"
    using f by (simp add: rep mk_report_def Let_def initial_state_def)
  show "basic_totalImpounded (basic rep) = length (filter (\<lambda>r. truthy (impounded r)) rows)"
    using f by (simp add: rep mk_report_def Let_def initial_state_def)
  show "impoundedRate (stats rep) =
           mk_impoundedRate (totalTrucks (basic rep)) (basic_totalImpounded (basic rep))"
    by (simp add: rep mk_report_def Let_def)
  show "alerts rep =
           rate_alerts env (impoundedRate (stats rep)) @
           gap_alerts env (peopleRows (basic rep)) (avgTrucksPerPerson (stats rep)) @
           assignment_alerts env (peopleRows (basic rep))"
    by (simp add: rep mk_report_def Let_def)
  show "perPerson (basic rep) = tally env [] (map (\<lambda>r. (resolvePersonName env r, one)) rows)"
    using f by (simp add: rep mk_report_def Let_def initial_state_def)
  show "basic_perPersonRevenue (basic rep) =
           tally env [] (map (\<lambda>r. (resolvePersonName env r, JNum (rowRevenue env r))) rows)"
    using f by (simp add: rep mk_report_def Let_def initial_state_def)
  show "perGroup (basic rep) = tally env [] (map (\<lambda>r. (bucket_key env g r, one)) rows)"
    using f by (simp add: rep mk_report_def Let_def initial_state_def)
  show "perShift (basic rep) = tally env [] (map (\<lambda>r. (bucket_key env s r, one)) rows)"
    using f by (simp add: rep mk_report_def Let_def initial_state_def)
  show "report_dailyActivity rep =
           foldl day_step [] (map (\<lambda>r. (dayKey env r, truthy (impounded r))) rows)"
    using f by (simp add: rep mk_report_def Let_def initial_state_def)
  show "trends rep = mk_trends env (report_dailyActivity rep)"
    by (simp add: rep mk_report_def Let_def)
  show "uniquePeople (stats rep) = mk_uniquePeople env (perPerson (basic rep))"
    by (simp add: rep mk_report_def Let_def)
  show "topPerformer (stats rep) = mk_topPerformer env (peopleRows (basic rep))"
    by (simp add: rep mk_report_def Let_def)
  show "topRevenuePerformer (stats rep) =
           mk_topRevenuePerformer env (basic_perPersonRevenue (basic rep))"
    by (simp add: rep mk_report_def Let_def)
  show "\<exists>impoundedCounts. peopleRows (basic rep) =
           mk_peopleRows env g s (perPerson (basic rep)) impoundedCounts
             (basic_perPersonRevenue (basic rep))"
    by (rule exI[of _ "perPersonImpounded st"]) (simp add: rep mk_report_def Let_def)
qed

subsection \<open>The impound rate\<close>

text \<open>
  Claim C7.  When a report is produced, \<open>totalTrucks\<close> is the number of records,
  \<open>totalImpounded\<close> the number of records whose \<open>impounded\<close> field is truthy, and
  \<open>impoundedRate\<close> is 0 for the empty list and impounded \<open>\<div>\<close> total \<open>\<times>\<close> 100
  otherwise; it always lies between 0 and 100.
\<close>

theorem impoundedRate_formula:
  assumes "computeAdvancedAnalytics env rows peopleToGroup peopleToShift = Inr rep"
  shows "totalTrucks (basic rep) = length rows \<and>
         basic_totalImpounded (basic rep) = length (filter (\<lambda>r. truthy (impounded r)) rows) \<and>
         impoundedRate (stats rep) =
           (if rows = [] then Num 0
            else Num (of_nat (basic_totalImpounded (basic rep)) /
                      of_nat (totalTrucks (basic rep)) * 100)) \<and>
         (\<exists>q. impoundedRate (stats rep) = Num q \<and> 0 \<le> q \<and> q \<le> 100)"
proof -
  let ?n = "length rows" and ?k = "length (filter (\<lambda>r. truthy (impounded r)) rows)"
  have kn: "?k \<le> ?n" by simp
  have rate: "impoundedRate (stats rep) = mk_impoundedRate ?n ?k"
    using report_fields(1-3)[OF assms] by simp
  have bounds: "\<exists>q. mk_impoundedRate ?n ?k = Num q \<and> 0 \<le> q \<and> q \<le> 100"
  proof (cases "?n > 0")
    case True
    have "(of_nat ?k :: rat) \<le> of_nat ?n" using kn by (simp only: of_nat_le_iff)
    then have "(of_nat ?k :: rat) / of_nat ?n \<le> 1" using True by (simp add: divide_le_eq)
    then have "(of_nat ?k :: rat) / of_nat ?n * 100 \<le> 1 * 100"
      by (intro mult_right_mono) simp_all
    moreover have "0 \<le> (of_nat ?k :: rat) / of_nat ?n * 100" by simp
    ultimately show ?thesis using True by (simp add: mk_impoundedRate_def)
  next
    case False
    then show ?thesis by (simp add: mk_impoundedRate_def)
  qed
  show ?thesis
    using report_fields(1,2)[OF assms] rate bounds
    by (auto simp: mk_impoundedRate_def)
qed

theorem impoundedRate_formula_witness:
  "\<not> isl (computeAdvancedAnalytics sample_env scenario_rows [] []) \<and>
   totalTrucks (basic (projr (computeAdvancedAnalytics sample_env scenario_rows [] []))) = 3 \<and>
   basic_totalImpounded (basic (projr (computeAdvancedAnalytics sample_env scenario_rows [] []))) = 1 \<and>
   impoundedRate (stats (projr (computeAdvancedAnalytics sample_env scenario_rows [] []))) = Num (100 / 3)"
proof -
  have run: "\<not> isl (computeAdvancedAnalytics sample_env scenario_rows [] [])"
    by code_simp
  then have "computeAdvancedAnalytics sample_env scenario_rows [] [] =
      Inr (projr (computeAdvancedAnalytics sample_env scenario_rows [] []))"
    by simp
  from impoundedRate_formula[OF this] run show ?thesis
    by (simp add: scenario_rows_def blank_row_def)
qed

subsection \<open>The impound-rate alerts\<close>

lemma no_rate_alert_elsewhere:
  "filter is_danger (gap_alerts env prs avg) = []"
  "filter is_rate_warning (gap_alerts env prs avg) = []"
  "filter is_danger (assignment_alerts env prs) = []"
  "filter is_rate_warning (assignment_alerts env prs) = []"
  by (simp_all add: gap_alerts_def assignment_alerts_def is_danger_def is_rate_warning_def Let_def)

lemma num_gt_15_10: "num_gt rate (Num 15) \<Longrightarrow> num_gt rate (Num 10)"
  by (cases rate) auto

lemma rate_alerts_tiers:
  "filter is_danger (rate_alerts env rate) =
     (if num_gt rate (Num 15) then rate_alerts env rate else [])"
  "filter is_rate_warning (rate_alerts env rate) =
     (if \<not> num_gt rate (Num 15) \<and> num_gt rate (Num 10) then rate_alerts env rate else [])"
  "length (rate_alerts env rate) = (if num_gt rate (Num 10) \<or> num_gt rate (Num 15) then 1 else 0)"
  by (simp_all add: rate_alerts_def is_danger_def is_rate_warning_def)

text \<open>
  Claim C8.  When a report is produced, it holds exactly one \<open>danger\<close> alert and no
  impound-rate warning if \<open>impoundedRate > 15\<close>; exactly one impound-rate warning and no
  \<open>danger\<close> alert if \<open>impoundedRate\<close> is above 10 but not above 15; neither otherwise.
  So the two never occur together.  Twenty records, all impounded, give the rate 100,
  one \<open>danger\<close> alert and no impound-rate warning.
\<close>

theorem impound_alert_tiers:
  assumes "computeAdvancedAnalytics env rows peopleToGroup peopleToShift = Inr rep"
  shows "(num_gt (impoundedRate (stats rep)) (Num 15) \<longrightarrow>
            length (filter is_danger (alerts rep)) = 1 \<and>
            filter is_rate_warning (alerts rep) = []) \<and>
         (\<not> num_gt (impoundedRate (stats rep)) (Num 15) \<and>
          num_gt (impoundedRate (stats rep)) (Num 10) \<longrightarrow>
            filter is_danger (alerts rep) = [] \<and>
            length (filter is_rate_warning (alerts rep)) = 1) \<and>
         (\<not> num_gt (impoundedRate (stats rep)) (Num 10) \<longrightarrow>
            filter is_danger (alerts rep) = [] \<and> filter is_rate_warning (alerts rep) = []) \<and>
         (length rows = 20 \<and> (\<forall>r \<in> set rows. truthy (impounded r)) \<longrightarrow>
            impoundedRate (stats rep) = Num 100 \<and>
            length (filter is_danger (alerts rep)) = 1 \<and>
            filter is_rate_warning (alerts rep) = [])"
proof -
  let ?rate = "impoundedRate (stats rep)"
  have d: "filter is_danger (alerts rep) = filter is_danger (rate_alerts env ?rate)"
    and w: "filter is_rate_warning (alerts rep) = filter is_rate_warning (rate_alerts env ?rate)"
    by (simp_all add: report_fields(4)[OF assms] no_rate_alert_elsewhere)
  have tiers: "(num_gt ?rate (Num 15) \<longrightarrow>
            length (filter is_danger (alerts rep)) = 1 \<and>
            filter is_rate_warning (alerts rep) = []) \<and>
         (\<not> num_gt ?rate (Num 15) \<and> num_gt ?rate (Num 10) \<longrightarrow>
            filter is_danger (alerts rep) = [] \<and>
            length (filter is_rate_warning (alerts rep)) = 1) \<and>
         (\<not> num_gt ?rate (Num 10) \<longrightarrow>
            filter is_danger (alerts rep) = [] \<and> filter is_rate_warning (alerts rep) = [])"
    unfolding d w using num_gt_15_10[of ?rate] by (auto simp: rate_alerts_tiers)
  have twenty: "?rate = Num 100"
    if "length rows = 20" and "\<forall>r \<in> set rows. truthy (impounded r)"
  proof -
    from that(2) have "filter (\<lambda>r. truthy (impounded r)) rows = rows" by simp
    then show ?thesis
      using report_fields(1-3)[OF assms] that(1) by (simp add: mk_impoundedRate_def)
  qed
  from tiers twenty show ?thesis by auto
qed

theorem impound_alert_tiers_witness:
  "\<not> isl (computeAdvancedAnalytics sample_env (impound_rows 20 0) [] []) \<and>
   length (impound_rows 20 0) = 20 \<and>
   list_all (\<lambda>r. truthy (impounded r)) (impound_rows 20 0) \<and>
   impoundedRate (stats (projr (computeAdvancedAnalytics sample_env (impound_rows 20 0) [] []))) =
     Num 100 \<and>
   length (filter is_danger
     (alerts (projr (computeAdvancedAnalytics sample_env (impound_rows 20 0) [] [])))) = 1 \<and>
   filter is_rate_warning
     (alerts (projr (computeAdvancedAnalytics sample_env (impound_rows 20 0) [] []))) = [] \<and>
   \<not> isl (computeAdvancedAnalytics sample_env (impound_rows 1 7) [] []) \<and>
   impoundedRate (stats (projr (computeAdvancedAnalytics sample_env (impound_rows 1 7) [] []))) =
     Num (25 / 2) \<and>
   filter is_danger
     (alerts (projr (computeAdvancedAnalytics sample_env (impound_rows 1 7) [] []))) = [] \<and>
   length (filter is_rate_warning
     (alerts (projr (computeAdvancedAnalytics sample_env (impound_rows 1 7) [] [])))) = 1"
proof -
  let ?a = "computeAdvancedAnalytics sample_env (impound_rows 20 0) [] []"
  let ?b = "computeAdvancedAnalytics sample_env (impound_rows 1 7) [] []"
  have run_a: "\<not> isl ?a" by code_simp
  have run_b: "\<not> isl ?b" by code_simp
  have len: "length (impound_rows 20 0) = 20"
    and imp: "\<forall>r \<in> set (impound_rows 20 0). truthy (impounded r)"
    by (simp_all add: impound_rows_def blank_row_def)
  have rate_b: "impoundedRate (stats (projr ?b)) = Num (25 / 2)" by code_simp
  from run_a have a: "?a = Inr (projr ?a)" by simp
  from run_b have b: "?b = Inr (projr ?b)" by simp
  from impound_alert_tiers[OF a] len imp
  have "impoundedRate (stats (projr ?a)) = Num 100 \<and>
        length (filter is_danger (alerts (projr ?a))) = 1 \<and>
        filter is_rate_warning (alerts (projr ?a)) = []"
    by blast
  moreover from impound_alert_tiers[OF b] rate_b
  have "filter is_danger (alerts (projr ?b)) = [] \<and>
        length (filter is_rate_warning (alerts (projr ?b))) = 1"
    by simp
  ultimately show ?thesis
    using run_a run_b len imp rate_b by (simp add: list_all_iff)
qed

subsection \<open>The revenue of a record\<close>

lemma fine_cases:
  "fine env a b =
     (case ToNumber env (js_or (js_or a b) (JNum (Num 0))) of NaN \<Rightarrow> Num 0 | Num q \<Rightarrow> Num q)"
  by (cases "ToNumber env (js_or (js_or a b) (JNum (Num 0)))") (simp_all add: fine_def num_or0_def)

lemma fine_Num: "\<exists>q. fine env a b = Num q"
  by (cases "ToNumber env (js_or (js_or a b) (JNum (Num 0)))") (simp_all add: fine_cases)

lemma fines_Num:
  "\<exists>qs. length qs = 8 \<and> fines env r = map Num qs \<and> rowRevenue env r = Num (sum_list qs)"
proof -
  obtain q1 where q1: "fine env (amountDue r) (raw_get r ''Amount Due'') = Num q1"
    using fine_Num by blast
  obtain q2 where q2: "fine env (gvmFine r) (raw_get r ''GVM Fine'') = Num q2"
    using fine_Num by blast
  obtain q3 where q3: "fine env (d1Fine r) (raw_get r ''D1 Fine'') = Num q3"
    using fine_Num by blast
  obtain q4 where q4: "fine env (d2Fine r) (raw_get r ''D2 Fine'') = Num q4"
    using fine_Num by blast
  obtain q5 where q5: "fine env (d3Fine r) (raw_get r ''D3 Fine'') = Num q5"
    using fine_Num by blast
  obtain q6 where q6: "fine env (d4Fine r) (raw_get r ''D4 Fine'') = Num q6"
    using fine_Num by blast
  obtain q7 where q7: "fine env (awkwardLoadFine r) (raw_get r ''Awkward Load Fine'') = Num q7"
    using fine_Num by blast
  obtain q8 where q8: "fine env (amountDueDriver r) (raw_get r ''Amount Due Driver'') = Num q8"
    using fine_Num by blast
  have "length [q1, q2, q3, q4, q5, q6, q7, q8] = 8 \<and>
        fines env r = map Num [q1, q2, q3, q4, q5, q6, q7, q8] \<and>
        rowRevenue env r = Num (sum_list [q1, q2, q3, q4, q5, q6, q7, q8])"
    by (simp add: rowRevenue_def fines_def q1 q2 q3 q4 q5 q6 q7 q8)
  then show ?thesis by blast
qed

lemma rowRevenue_Num: "\<exists>q. rowRevenue env r = Num q"
  using fines_Num[of env r] by blast


subsection \<open>Day keys\<close>

lemma digit_char_in: "digit_char n \<in> date_chars"
proof -
  have "nat (n mod 10) < length ''0123456789''" by simp
  then have "''0123456789'' ! nat (n mod 10) \<in> set ''0123456789''"
    by (rule nth_mem)
  then show ?thesis unfolding digit_char_def date_chars_def by auto
qed

lemma pad_chars:
  "set (pad2 n) \<subseteq> date_chars" "set (pad3 n) \<subseteq> date_chars"
  "set (pad4 n) \<subseteq> date_chars" "set (pad6 n) \<subseteq> date_chars"
  by (simp_all add: pad2_def pad3_def pad4_def pad6_def digit_char_in)

lemma iso_year_chars: "set (iso_year y) \<subseteq> date_chars"
  using pad_chars(3,4) by (auto simp: iso_year_def date_chars_def)

lemma iso_date_chars: "set (iso_date t) \<subseteq> date_chars"
proof -
  obtain y m d where c: "civil_from_days (t div msPerDay) = (y, m, d)"
    by (cases "civil_from_days (t div msPerDay)") auto
  have "set (iso_year y @ ''-'' @ pad2 m @ ''-'' @ pad2 d) \<subseteq> date_chars"
    using iso_year_chars[of y] pad_chars(1)[of m] pad_chars(1)[of d]
    by (auto simp: date_chars_def)
  then show ?thesis by (simp add: iso_date_def c)
qed

lemma iso_date_nonempty: "iso_date t \<noteq> []"
  by (simp add: iso_date_def split: prod.splits)

lemma split_T_first_toISOString: "split_T_first (toISOString t) = iso_date t"
proof -
  have "\<forall>c \<in> set (iso_date t). c \<noteq> CHR ''T''"
    using iso_date_chars[of t] by (auto simp: date_chars_def)
  then show ?thesis
    by (simp add: split_T_first_def toISOString_def takeWhile_append2)
qed

lemma dayKey_cases:
  "dayKey env r =
     (if truthy (dateStr r)
      then (case newDate env (dateStr r) of Some t \<Rightarrow> iso_date t | None \<Rightarrow> ''Unknown Date'')
      else ''Unknown Date'')"
  by (simp add: dayKey_def split_T_first_toISOString split: option.splits)

lemma iso_date_not_unknown: "iso_date t \<noteq> ''Unknown Date''"
proof
  assume "iso_date t = ''Unknown Date''"
  then have "CHR ''U'' \<in> set (iso_date t)" by simp
  then show False using iso_date_chars[of t] by (auto simp: date_chars_def)
qed

lemma dayKey_unknown_iff:
  "dayKey env r = ''Unknown Date'' \<longleftrightarrow>
     \<not> truthy (dateStr r) \<or> newDate env (dateStr r) = None"
  by (auto simp: dayKey_cases iso_date_not_unknown split: option.splits)

lemma inherited_name_letter:
  assumes "k \<in> set object_prototype_keys"
  shows "k \<noteq> [] \<and> hd k \<notin> date_chars"
  using assms by (auto simp: object_prototype_keys_def date_chars_def)

lemma iso_date_not_inherited: "iso_date t \<notin> set object_prototype_keys"
proof
  assume "iso_date t \<in> set object_prototype_keys"
  then have "hd (iso_date t) \<notin> date_chars" by (simp add: inherited_name_letter)
  moreover have "hd (iso_date t) \<in> set (iso_date t)"
    using iso_date_nonempty by simp
  ultimately show False using iso_date_chars[of t] by auto
qed

lemma dayKey_not_inherited: "dayKey env r \<notin> set object_prototype_keys"
proof (cases "dayKey env r = ''Unknown Date''")
  case True
  then show ?thesis by (simp add: object_prototype_keys_def)
next
  case False
  then obtain t where "dayKey env r = iso_date t"
    by (auto simp: dayKey_cases split: if_splits option.splits)
  then show ?thesis by (simp add: iso_date_not_inherited)
qed

subsection \<open>Own names of an object\<close>

lemma set_obj_keys: "set (obj_keys ob) = fst ` set ob"
  by (auto simp: obj_keys_def)

lemma length_obj_keys: "length (obj_keys ob) = length ob"
  using sum_length_filter_compl[of is_array_index "map fst ob"]
  by (simp add: obj_keys_def)

lemma distinct_obj_keys: "distinct (map fst ob) \<Longrightarrow> distinct (obj_keys ob)"
  by (auto simp: obj_keys_def)


subsection \<open>The daily activity\<close>

lemma map_of_None_keys: "map_of al k = None \<longleftrightarrow> k \<notin> set (map fst al)"
  by (simp add: map_of_eq_None_iff)

lemma day_step_keys:
  assumes "fst kb \<notin> set object_prototype_keys"
  shows "map fst (day_step da kb) =
           (if fst kb \<in> set (map fst da) then map fst da else map fst da @ [fst kb])"
proof -
  let ?k = "fst kb"
  let ?da1 = "day_init da ?k"
  have k1: "map fst ?da1 = (if ?k \<in> set (map fst da) then map fst da else map fst da @ [?k])"
    using assms by (auto simp: day_init_def update_keys map_of_None_keys)
  then have in1: "?k \<in> set (map fst ?da1)" by (simp split: if_splits)
  have k2: "map fst (day_count ?da1 ?k) = map fst ?da1"
    using in1 by (auto simp: day_count_def update_keys split: option.splits)
  then have in2: "?k \<in> set (map fst (day_count ?da1 ?k))" using in1 by simp
  have k3: "map fst (day_count_impounded (day_count ?da1 ?k) ?k) = map fst (day_count ?da1 ?k)"
    using in2 by (auto simp: day_count_impounded_def update_keys split: option.splits)
  show ?thesis using k1 k2 k3 by (simp add: day_step_def)
qed

lemma day_entry_update:
  "day_entry (AList.update k d da) k' = (if k' = k then d else day_entry da k')"
  by (simp add: day_entry_def update_conv')

lemma day_entry_step:
  assumes "fst kb \<notin> set object_prototype_keys"
  shows "day_entry (day_step da kb) k =
           (if fst kb = k
            then \<lparr>day_total = day_total (day_entry da k) + 1,
                  day_impounded = day_impounded (day_entry da k) + (if snd kb then 1 else 0)\<rparr>
            else day_entry da k)"
proof -
  let ?k = "fst kb"
  let ?da1 = "day_init da ?k"
  have e1: "day_entry ?da1 k = day_entry da k" for k
    by (auto simp: day_init_def day_entry_update) (simp add: day_entry_def)
  have own: "map_of ?da1 ?k \<noteq> None"
    using assms by (auto simp: day_init_def update_conv')
  then obtain d where d: "map_of ?da1 ?k = Some d" by auto
  then have dd: "d = day_entry da ?k" using e1[of ?k] by (simp add: day_entry_def)
  let ?da2 = "day_count ?da1 ?k"
  have da2: "?da2 = AList.update ?k (d\<lparr>day_total := day_total d + 1\<rparr>) ?da1"
    by (simp add: day_count_def d)
  have d2: "map_of ?da2 ?k = Some (d\<lparr>day_total := day_total d + 1\<rparr>)"
    by (simp add: da2 update_conv')
  have e2: "day_entry ?da2 k = (if k = ?k then d\<lparr>day_total := day_total d + 1\<rparr> else day_entry da k)" for k
    by (simp add: da2 day_entry_update e1)
  have e3: "day_entry (day_count_impounded ?da2 ?k) k =
      (if k = ?k then d\<lparr>day_total := day_total d + 1, day_impounded := day_impounded d + 1\<rparr>
       else day_entry da k)" for k
    by (simp add: day_count_impounded_def d2 day_entry_update e2)
  show ?thesis
    by (cases "snd kb") (auto simp: day_step_def e2 e3 dd)
qed

lemma day_fold_keys:
  assumes "\<forall>kb \<in> set kbs. fst kb \<notin> set object_prototype_keys"
    and "distinct (map fst da)"
  shows "distinct (map fst (foldl day_step da kbs)) \<and>
         set (map fst (foldl day_step da kbs)) = set (map fst da) \<union> fst ` set kbs"
  using assms
proof (induction kbs arbitrary: da)
  case Nil
  then show ?case by simp
next
  case (Cons kb kbs)
  have k: "map fst (day_step da kb) =
      (if fst kb \<in> set (map fst da) then map fst da else map fst da @ [fst kb])"
    using Cons.prems(1) by (simp add: day_step_keys)
  then have "distinct (map fst (day_step da kb))"
    using Cons.prems(2) by (simp split: if_splits)
  with Cons.IH[of "day_step da kb"] Cons.prems(1) k show ?case
    by (auto split: if_splits)
qed

lemma day_fold_entry:
  assumes "\<forall>kb \<in> set kbs. fst kb \<notin> set object_prototype_keys"
  shows "day_total (day_entry (foldl day_step da kbs) k) =
           day_total (day_entry da k) + length (filter (\<lambda>kb. fst kb = k) kbs) \<and>
         day_impounded (day_entry (foldl day_step da kbs) k) =
           day_impounded (day_entry da k) + length (filter (\<lambda>kb. fst kb = k \<and> snd kb) kbs)"
  using assms
proof (induction kbs arbitrary: da)
  case Nil
  then show ?case by simp
next
  case (Cons kb kbs)
  from Cons.prems have nk: "fst kb \<notin> set object_prototype_keys" by simp
  from Cons.IH[of "day_step da kb"] Cons.prems show ?case
    by (simp add: day_entry_step[OF nk])
qed

text \<open>The days of a report: one own name for each day key of the rows.\<close>

lemma report_days:
  assumes "computeAdvancedAnalytics env rows g s = Inr rep"
  shows "distinct (map fst (report_dailyActivity rep))"
    and "set (map fst (report_dailyActivity rep)) = dayKey env ` set rows"
    and "length (obj_keys (report_dailyActivity rep)) = card (dayKey env ` set rows)"
    and "day_total (day_entry (report_dailyActivity rep) k) =
           length (filter (\<lambda>r. dayKey env r = k) rows)"
proof -
  let ?kbs = "map (\<lambda>r. (dayKey env r, truthy (impounded r))) rows"
  have da: "report_dailyActivity rep = foldl day_step [] ?kbs"
    by (rule report_fields(9)[OF assms])
  have ok: "\<forall>kb \<in> set ?kbs. fst kb \<notin> set object_prototype_keys"
    by (auto simp: dayKey_not_inherited)
  from day_fold_keys[OF ok, of "[]"]
  show d: "distinct (map fst (report_dailyActivity rep))"
    and k: "set (map fst (report_dailyActivity rep)) = dayKey env ` set rows"
    by (auto simp: da image_image)
  have "length (obj_keys (report_dailyActivity rep)) = length (map fst (report_dailyActivity rep))"
    by (simp add: length_obj_keys)
  also have "\<dots> = card (set (map fst (report_dailyActivity rep)))"
    using d by (simp only: distinct_card)
  finally show "length (obj_keys (report_dailyActivity rep)) = card (dayKey env ` set rows)"
    using k by simp
  from day_fold_entry[OF ok, of "[]" k]
  show "day_total (day_entry (report_dailyActivity rep) k) =
           length (filter (\<lambda>r. dayKey env r = k) rows)"
    by (simp add: da day_entry_def filter_map comp_def)
qed

subsection \<open>The trend series\<close>

lemma mk_trends_None: "mk_trends env da = None \<longleftrightarrow> length (obj_keys da) \<le> 1"
  by (auto simp: mk_trends_def Let_def)

lemma mk_trends_Some:
  assumes "mk_trends env da = Some t"
  shows "dates t =
           map (\<lambda>d. if d = ''Unknown Date'' then d
                    else toLocaleDateString env (newDate env (JStr d))) (sort (obj_keys da))"
    and "dailyCounts t = map (\<lambda>d. day_total (day_entry da d)) (sort (obj_keys da))"
    and "dailyImpounded t = map (\<lambda>d. day_impounded (day_entry da d)) (sort (obj_keys da))"
    and "2 \<le> length (obj_keys da)"
  using assms by (auto simp: mk_trends_def Let_def split: if_splits)

text \<open>
  Claim C10.  When a report is produced, \<open>trends\<close> is \<open>null\<close> exactly when the rows have
  at most one distinct day key (\<open>Unknown Date\<close> counts as one); the own names of
  \<open>dailyActivity\<close> are the day keys of the rows.  A trend series, when there is one, has
  an entry for each day key, so at least two.  In particular rows that all have the same
  day key give no trend series.
\<close>

theorem trends_need_two_days:
  assumes "computeAdvancedAnalytics env rows peopleToGroup peopleToShift = Inr rep"
  shows "(trends rep = None) = (card (dayKey env ` set rows) \<le> 1) \<and>
         set (obj_keys (report_dailyActivity rep)) = dayKey env ` set rows \<and>
         (\<forall>t. trends rep = Some t \<longrightarrow>
            2 \<le> length (dates t) \<and>
            length (dates t) = card (dayKey env ` set rows) \<and>
            length (dailyCounts t) = length (dates t) \<and>
            length (dailyImpounded t) = length (dates t)) \<and>
         ((\<forall>r \<in> set rows. \<forall>r' \<in> set rows. dayKey env r = dayKey env r') \<longrightarrow> trends rep = None)"
proof -
  let ?da = "report_dailyActivity rep"
  let ?days = "dayKey env ` set rows"
  have tr: "trends rep = mk_trends env ?da" by (rule report_fields(10)[OF assms])
  have len: "length (obj_keys ?da) = card ?days" by (rule report_days(3)[OF assms])
  have none: "(trends rep = None) = (card ?days \<le> 1)"
    by (simp add: tr mk_trends_None len)
  have keys: "set (obj_keys ?da) = ?days"
    using report_days(2)[OF assms] by (simp add: set_obj_keys)
  have some: "2 \<le> length (dates t) \<and> length (dates t) = card ?days \<and>
      length (dailyCounts t) = length (dates t) \<and> length (dailyImpounded t) = length (dates t)"
    if "trends rep = Some t" for t
    using mk_trends_Some[of env ?da t] that len by (simp add: tr)
  have one_day: "trends rep = None"
    if same: "\<forall>r \<in> set rows. \<forall>r' \<in> set rows. dayKey env r = dayKey env r'"
  proof (cases rows)
    case Nil
    then show ?thesis by (simp add: none)
  next
    case (Cons r0 rs)
    then have r0: "r0 \<in> set rows" by simp
    have "dayKey env r \<in> {dayKey env r0}" if "r \<in> set rows" for r
      using bspec[OF bspec[OF same that] r0] by simp
    then have "?days \<subseteq> {dayKey env r0}" by (rule image_subsetI)
    then have "card ?days \<le> card {dayKey env r0}" by (intro card_mono) simp_all
    then show ?thesis by (simp add: none)
  qed
  show ?thesis
  proof (intro conjI allI impI)
    show "(trends rep = None) = (card ?days \<le> 1)" by (rule none)
    show "set (obj_keys ?da) = ?days" by (rule keys)
    show "2 \<le> length (dates t)" if "trends rep = Some t" for t
      using some[OF that] by simp
    show "length (dates t) = card ?days" if "trends rep = Some t" for t
      using some[OF that] by simp
    show "length (dailyCounts t) = length (dates t)" if "trends rep = Some t" for t
      using some[OF that] by simp
    show "length (dailyImpounded t) = length (dates t)" if "trends rep = Some t" for t
      using some[OF that] by simp
    show "trends rep = None"
      if "\<forall>r \<in> set rows. \<forall>r' \<in> set rows. dayKey env r = dayKey env r'"
      by (rule one_day[OF that])
  qed
qed



theorem trends_need_two_days_witness:
  "\<not> isl (computeAdvancedAnalytics sample_env [dated_row ''2024-01-01'', dated_row ''2024-01-01''] [] []) \<and>
   list_all (\<lambda>r. dayKey sample_env r = ''2024-01-01'') [dated_row ''2024-01-01'', dated_row ''2024-01-01''] \<and>
   trends (projr (computeAdvancedAnalytics sample_env
      [dated_row ''2024-01-01'', dated_row ''2024-01-01''] [] [])) = None \<and>
   \<not> isl (computeAdvancedAnalytics sample_env scenario_rows [] []) \<and>
   card (dayKey sample_env ` set scenario_rows) = 2 \<and>
   trends (projr (computeAdvancedAnalytics sample_env scenario_rows [] [])) \<noteq> None"
proof -
  let ?one = "[dated_row ''2024-01-01'', dated_row ''2024-01-01'']"
  let ?a = "computeAdvancedAnalytics sample_env ?one [] []"
  let ?b = "computeAdvancedAnalytics sample_env scenario_rows [] []"
  have run_a: "\<not> isl ?a" by code_simp
  have run_b: "\<not> isl ?b" by code_simp
  have days_a: "list_all (\<lambda>r. dayKey sample_env r = ''2024-01-01'') ?one" by code_simp
  have days_b: "map (dayKey sample_env) scenario_rows = [''2024-01-01'', ''2024-01-02'', ''2024-01-01'']"
    by code_simp
  have "dayKey sample_env ` set scenario_rows = set (map (dayKey sample_env) scenario_rows)"
    by simp
  also have "\<dots> = {''2024-01-01'', ''2024-01-02''}" unfolding days_b by auto
  finally have card_b: "card (dayKey sample_env ` set scenario_rows) = 2" by simp
  from run_a have a: "?a = Inr (projr ?a)" by simp
  from run_b have b: "?b = Inr (projr ?b)" by simp
  from days_a have same: "\<forall>r \<in> set ?one. \<forall>r' \<in> set ?one. dayKey sample_env r = dayKey sample_env r'"
    by (simp add: list_all_iff)
  from trends_need_two_days[OF a] same have "trends (projr ?a) = None" by blast
  moreover from trends_need_two_days[OF b] card_b have "trends (projr ?b) \<noteq> None" by simp
  ultimately show ?thesis using run_a run_b days_a card_b by simp
qed

subsection \<open>Records without a usable date\<close>

text \<open>
  Claim C3 says that the \<open>Unknown Date\<close> bucket never appears in the trend series.  It
  does: the series is built from every own name of \<open>dailyActivity\<close>, and the mapping
  over the sorted names passes \<open>Unknown Date\<close> through as a label.  One record dated
  2024-01-01 and one dated \<open>not-a-date\<close> give the series \<open>2024-01-01\<close>,
  \<open>Unknown Date\<close> with the counts 1 and 1.
\<close>

theorem unknown_date_in_trend_series:
  "\<not> isl (computeAdvancedAnalytics sample_env
      [dated_row ''2024-01-01'', dated_row ''not-a-date''] [] []) \<and>
   dayKey sample_env (dated_row ''not-a-date'') = ''Unknown Date'' \<and>
   map_option dates (trends (projr (computeAdvancedAnalytics sample_env
      [dated_row ''2024-01-01'', dated_row ''not-a-date''] [] []))) =
     Some [''2024-01-01'', ''Unknown Date''] \<and>
   map_option dailyCounts (trends (projr (computeAdvancedAnalytics sample_env
      [dated_row ''2024-01-01'', dated_row ''not-a-date''] [] []))) = Some [1, 1]"
  by code_simp

text \<open>
  Claim C3, amended.  A record whose date is missing or does not parse has the day key
  \<open>Unknown Date\<close> and counts toward \<open>totalTrucks\<close>.  Its bucket is an own name of
  \<open>dailyActivity\<close> and holds the number of such records.  Whenever a trend series is
  produced the bucket is one of its entries, under the label \<open>Unknown Date\<close> and with
  that count; there is no series exactly when every record is in this bucket.  A single
  such record is counted in the totals and yields no series at all.
\<close>

theorem unknown_date_bucket:
  assumes "computeAdvancedAnalytics env rows peopleToGroup peopleToShift = Inr rep"
    and "r \<in> set rows"
    and "\<not> truthy (dateStr r) \<or> newDate env (dateStr r) = None"
  shows "dayKey env r = ''Unknown Date'' \<and>
         totalTrucks (basic rep) = length rows \<and>
         ''Unknown Date'' \<in> set (obj_keys (report_dailyActivity rep)) \<and>
         day_total (day_entry (report_dailyActivity rep) ''Unknown Date'') =
           length (filter (\<lambda>r'. dayKey env r' = ''Unknown Date'') rows) \<and>
         (\<forall>t. trends rep = Some t \<longrightarrow>
            (\<exists>i < length (dates t).
               dates t ! i = ''Unknown Date'' \<and>
               dailyCounts t ! i =
                 length (filter (\<lambda>r'. dayKey env r' = ''Unknown Date'') rows))) \<and>
         (trends rep = None) = (\<forall>r' \<in> set rows. dayKey env r' = ''Unknown Date'') \<and>
         (rows = [r] \<longrightarrow> trends rep = None \<and> totalTrucks (basic rep) = 1)"
proof -
  let ?U = "''Unknown Date''"
  let ?da = "report_dailyActivity rep"
  let ?days = "dayKey env ` set rows"
  let ?n = "length (filter (\<lambda>r'. dayKey env r' = ?U) rows)"
  note run = assms(1)
  have key: "dayKey env r = ?U"
    using assms(3) by (simp add: dayKey_unknown_iff)
  have tot: "totalTrucks (basic rep) = length rows" by (rule report_fields(1)[OF run])
  have "?U \<in> ?days" using assms(2) key by (metis imageI)
  then have own: "?U \<in> set (obj_keys ?da)"
    using report_days(2)[OF run] by (simp add: set_obj_keys)
  have cnt: "day_total (day_entry ?da ?U) = ?n" by (rule report_days(4)[OF run])
  have tr: "trends rep = mk_trends env ?da" by (rule report_fields(10)[OF run])
  have series: "\<exists>i < length (dates t). dates t ! i = ?U \<and> dailyCounts t ! i = ?n"
    if "trends rep = Some t" for t
  proof -
    from that have t: "mk_trends env ?da = Some t" by (simp add: tr)
    from own have "?U \<in> set (sort (obj_keys ?da))" by simp
    then obtain i where i: "i < length (sort (obj_keys ?da))" and at: "sort (obj_keys ?da) ! i = ?U"
      by (metis in_set_conv_nth)
    have "dates t ! i = ?U"
      using i at by (simp add: mk_trends_Some(1)[OF t])
    moreover have "dailyCounts t ! i = ?n"
      using i at cnt by (simp add: mk_trends_Some(2)[OF t])
    moreover have "i < length (dates t)"
      using i by (simp add: mk_trends_Some(1)[OF t])
    ultimately show ?thesis by blast
  qed
  have none: "(trends rep = None) = (\<forall>r' \<in> set rows. dayKey env r' = ?U)"
  proof -
    have "(trends rep = None) = (card ?days \<le> Suc 0)"
      by (simp add: tr mk_trends_None report_days(3)[OF run])
    also have "\<dots> = (\<forall>a \<in> ?days. \<forall>b \<in> ?days. a = b)"
      by (rule card_le_Suc0_iff_eq) simp
    also have "\<dots> = (\<forall>a \<in> ?days. a = ?U)"
      using \<open>?U \<in> ?days\<close> by metis
    also have "\<dots> = (\<forall>r' \<in> set rows. dayKey env r' = ?U)"
      by (simp only: ball_simps)
    finally show ?thesis .
  qed
  have single: "trends rep = None \<and> totalTrucks (basic rep) = 1" if "rows = [r]"
    using that key tot by (simp add: none)
  show ?thesis
  proof (intro conjI allI impI)
    show "dayKey env r = ?U" by (rule key)
    show "totalTrucks (basic rep) = length rows" by (rule tot)
    show "?U \<in> set (obj_keys ?da)" by (rule own)
    show "day_total (day_entry ?da ?U) = ?n" by (rule cnt)
    show "\<exists>i < length (dates t). dates t ! i = ?U \<and> dailyCounts t ! i = ?n"
      if "trends rep = Some t" for t by (rule series[OF that])
    show "(trends rep = None) = (\<forall>r' \<in> set rows. dayKey env r' = ?U)" by (rule none)
    show "trends rep = None" if "rows = [r]" using single[OF that] by simp
    show "totalTrucks (basic rep) = 1" if "rows = [r]" using single[OF that] by simp
  qed
qed

theorem unknown_date_bucket_witness:
  "\<not> isl (computeAdvancedAnalytics sample_env
      [dated_row ''2024-01-01'', dated_row ''not-a-date''] [] []) \<and>
   newDate sample_env (dateStr (dated_row ''not-a-date'')) = None \<and>
   dayKey sample_env (dated_row ''not-a-date'') = ''Unknown Date'' \<and>
   totalTrucks (basic (projr (computeAdvancedAnalytics sample_env
      [dated_row ''2024-01-01'', dated_row ''not-a-date''] [] []))) = 2 \<and>
   ''Unknown Date'' \<in> set (dates (the (trends (projr (computeAdvancedAnalytics sample_env
      [dated_row ''2024-01-01'', dated_row ''not-a-date''] [] []))))) \<and>
   \<not> isl (computeAdvancedAnalytics sample_env [dated_row ''not-a-date''] [] []) \<and>
   totalTrucks (basic (projr (computeAdvancedAnalytics sample_env
      [dated_row ''not-a-date''] [] []))) = 1 \<and>
   trends (projr (computeAdvancedAnalytics sample_env [dated_row ''not-a-date''] [] [])) = None"
proof -
  let ?r = "dated_row ''not-a-date''"
  let ?two = "[dated_row ''2024-01-01'', ?r]"
  let ?a = "computeAdvancedAnalytics sample_env ?two [] []"
  let ?b = "computeAdvancedAnalytics sample_env [?r] [] []"
  have run_a: "\<not> isl ?a" by code_simp
  have run_b: "\<not> isl ?b" by code_simp
  have bad: "newDate sample_env (dateStr ?r) = None" by code_simp
  then have miss: "\<not> truthy (dateStr ?r) \<or> newDate sample_env (dateStr ?r) = None" by simp
  have some: "trends (projr ?a) \<noteq> None" by code_simp
  from run_a have a: "?a = Inr (projr ?a)" by simp
  from run_b have b: "?b = Inr (projr ?b)" by simp
  have in_a: "?r \<in> set ?two" by simp
  have in_b: "?r \<in> set [?r]" by simp
  note ta = unknown_date_bucket[OF a in_a miss]
  note tb = unknown_date_bucket[OF b in_b miss]
  from some obtain t where t: "trends (projr ?a) = Some t" by auto
  with ta obtain i where "i < length (dates t)" "dates t ! i = ''Unknown Date''" by blast
  then have "''Unknown Date'' \<in> set (dates t)" by (metis nth_mem)
  then have series: "''Unknown Date'' \<in> set (dates (the (trends (projr ?a))))"
    by (simp add: t)
  from ta have "dayKey sample_env ?r = ''Unknown Date''"
    and "totalTrucks (basic (projr ?a)) = 2" by simp_all
  moreover from tb have "trends (projr ?b) = None \<and> totalTrucks (basic (projr ?b)) = 1"
    by blast
  ultimately show ?thesis using run_a run_b bad series by simp
qed

subsection \<open>The day key of a dated record\<close>

lemma digit_char_is_digit: "is_digit (digit_char n)"
proof -
  define k where "k = nat (n mod 10)"
  have "k < 10" by (simp add: k_def)
  then have "k = 0 \<or> k = 1 \<or> k = 2 \<or> k = 3 \<or> k = 4 \<or> k = 5 \<or> k = 6 \<or> k = 7 \<or>
      k = 8 \<or> k = 9"
    by arith
  then have "is_digit (''0123456789'' ! k)"
    by (auto simp: is_digit_def)
  then show ?thesis by (simp add: digit_char_def k_def)
qed

lemma iso_date_ymd:
  assumes "civil_from_days (t div msPerDay) = (y, m, d)" and "0 \<le> y" and "y \<le> 9999"
  shows "is_ymd (iso_date t)"
  using assms
  by (simp add: iso_date_def iso_year_def pad4_def pad2_def is_ymd_def digit_char_is_digit)

text \<open>
  Claim C5 says that the day key is the local calendar date and not the UTC date.  The key
  is cut from \<open>toISOString\<close>, which prints UTC.  A record dated
  \<open>2024-01-01T22:00:00-05:00\<close> (ten in the evening on 1 January, five hours behind UTC)
  parses to an instant whose UTC date is 2 January: the key is \<open>2024-01-02\<close>, while the
  date on the record's own clock is \<open>2024-01-01\<close>.
\<close>

theorem day_key_is_utc_date_not_local:
  "truthy (dateStr (dated_row ''2024-01-01T22:00:00-05:00'')) \<and>
   newDate sample_env (dateStr (dated_row ''2024-01-01T22:00:00-05:00'')) = Some 1704164400000 \<and>
   dayKey sample_env (dated_row ''2024-01-01T22:00:00-05:00'') = ''2024-01-02'' \<and>
   local_date (- 18000000) 1704164400000 = ''2024-01-01''"
  by code_simp

text \<open>
  Claim C5, amended.  For a record whose date parses, to the time value \<open>t\<close>, the day key
  is the UTC calendar date of \<open>t\<close>: the date part of the ISO string, which is the date
  on a clock with offset 0.  The time of day plays no part: every instant of the same UTC
  day has this key.  The key has the shape \<open>YYYY-MM-DD\<close> when the year lies between 0
  and 9999 (other years print with a sign and six digits).
\<close>

theorem day_key_is_utc_date:
  assumes "truthy (dateStr r)" and "newDate env (dateStr r) = Some t"
  shows "dayKey env r = iso_date t \<and>
         dayKey env r = local_date 0 t \<and>
         (\<forall>t'. t' div msPerDay = t div msPerDay \<longrightarrow> iso_date t' = dayKey env r) \<and>
         (0 \<le> fst (civil_from_days (t div msPerDay)) \<and>
          fst (civil_from_days (t div msPerDay)) \<le> 9999 \<longrightarrow> is_ymd (dayKey env r))"
proof -
  have key: "dayKey env r = iso_date t" using assms by (simp add: dayKey_cases)
  have same_day: "iso_date t' = iso_date t" if "t' div msPerDay = t div msPerDay" for t'
    using that by (simp add: iso_date_def)
  have shape: "is_ymd (iso_date t)"
    if "0 \<le> fst (civil_from_days (t div msPerDay)) \<and> fst (civil_from_days (t div msPerDay)) \<le> 9999"
  proof -
    obtain y m d where c: "civil_from_days (t div msPerDay) = (y, m, d)"
      by (cases "civil_from_days (t div msPerDay)") auto
    with that show ?thesis by (intro iso_date_ymd[OF c]) simp_all
  qed
  show ?thesis
  proof (intro conjI allI impI)
    show "dayKey env r = iso_date t" by (rule key)
    show "dayKey env r = local_date 0 t" by (simp add: key local_date_def)
    show "iso_date t' = dayKey env r" if "t' div msPerDay = t div msPerDay" for t'
      unfolding key by (rule same_day[OF that])
    show "is_ymd (dayKey env r)"
      if "0 \<le> fst (civil_from_days (t div msPerDay)) \<and>
          fst (civil_from_days (t div msPerDay)) \<le> 9999"
      unfolding key by (rule shape[OF that])
  qed
qed

theorem day_key_is_utc_date_witness:
  "truthy (dateStr (dated_row ''2024-01-01T22:00:00-05:00'')) \<and>
   newDate sample_env (dateStr (dated_row ''2024-01-01T22:00:00-05:00'')) = Some 1704164400000 \<and>
   0 \<le> fst (civil_from_days (1704164400000 div msPerDay)) \<and>
   fst (civil_from_days (1704164400000 div msPerDay)) \<le> 9999 \<and>
   dayKey sample_env (dated_row ''2024-01-01T22:00:00-05:00'') = iso_date 1704164400000 \<and>
   iso_date 1704164400000 = ''2024-01-02'' \<and>
   iso_date 1704153600000 = dayKey sample_env (dated_row ''2024-01-01T22:00:00-05:00'') \<and>
   is_ymd (dayKey sample_env (dated_row ''2024-01-01T22:00:00-05:00''))"
proof -
  let ?r = "dated_row ''2024-01-01T22:00:00-05:00''"
  have h1: "truthy (dateStr ?r)" by code_simp
  have h2: "newDate sample_env (dateStr ?r) = Some 1704164400000" by code_simp
  have h3: "0 \<le> fst (civil_from_days (1704164400000 div msPerDay)) \<and>
      fst (civil_from_days (1704164400000 div msPerDay)) \<le> 9999" by code_simp
  have h4: "(1704153600000::int) div msPerDay = 1704164400000 div msPerDay" by code_simp
  have h5: "iso_date 1704164400000 = ''2024-01-02''" by code_simp
  from day_key_is_utc_date[OF h1 h2] h3 h4
  have "dayKey sample_env ?r = iso_date 1704164400000 \<and>
        iso_date 1704153600000 = dayKey sample_env ?r \<and> is_ymd (dayKey sample_env ?r)"
    by blast
  with h1 h2 h3 h5 show ?thesis by blast
qed

subsection \<open>Accumulating under a name\<close>

lemma is_num_conv: "is_num v \<longleftrightarrow> (\<exists>q. v = JNum (Num q))"
  by (auto simp: is_num_def split: jsval.splits jsnum.splits)

lemma bump_keys:
  "map fst (bump env ob k v) =
     (if k = ''__proto__'' \<or> k \<in> set (map fst ob) then map fst ob else map fst ob @ [k])"
  by (auto simp: bump_def obj_set_def update_keys map_of_None_keys)

lemma bump_other: "k' \<noteq> k \<Longrightarrow> map_of (bump env ob k v) k' = map_of ob k'"
  by (simp add: bump_def obj_set_def update_conv')

lemma not_inherited_not_proto: "k \<notin> set object_prototype_keys \<Longrightarrow> k \<noteq> ''__proto__''"
  by (auto simp: object_prototype_keys_def)

lemma bump_same_num:
  assumes "k \<notin> set object_prototype_keys" and "is_num (held ob k)"
  shows "map_of (bump env ob k (JNum (Num d))) k = Some (JNum (Num (num_of (held ob k) + d)))"
proof -
  have np: "k \<noteq> ''__proto__''" using assms(1) by (rule not_inherited_not_proto)
  have "js_add env (js_or (obj_get ob k) (JNum (Num 0))) (JNum (Num d)) =
      JNum (Num (num_of (held ob k) + d))"
  proof (cases "map_of ob k")
    case None
    then show ?thesis
      using assms(1) by (simp add: obj_get_def held_def js_or_def js_add_def num_of_def)
  next
    case (Some v)
    then obtain q where "v = JNum (Num q)"
      using assms(2) by (auto simp: held_def is_num_conv)
    with Some show ?thesis
      by (simp add: obj_get_def held_def js_or_def js_add_def num_of_def)
  qed
  then show ?thesis using np by (simp add: bump_def obj_set_def update_conv')
qed

lemma held_bump:
  assumes "k \<notin> set object_prototype_keys" and "is_num (held ob k)"
  shows "held (bump env ob k' v) k =
           (if k' = k then (if is_num v then JNum (Num (num_of (held ob k) + num_of v))
                            else held (bump env ob k v) k)
            else held ob k)"
proof (cases "k' = k")
  case False
  then show ?thesis by (simp add: held_def bump_other)
next
  case True
  show ?thesis
  proof (cases "is_num v")
    case False
    then show ?thesis using True by simp
  next
    case nv: True
    then obtain d where "v = JNum (Num d)" by (auto simp: is_num_conv)
    then show ?thesis
      using True bump_same_num[OF assms, of env d]
      by (simp add: held_def is_num_def num_of_def)
  qed
qed

lemma tally_Cons: "tally env ob (kv # kvs) = tally env (bump env ob (fst kv) (snd kv)) kvs"
  by (simp add: tally_def)

lemma tally_Nil: "tally env ob [] = ob"
  by (simp add: tally_def)

lemma tally_held:
  assumes "k \<notin> set object_prototype_keys"
    and "is_num (held ob k)"
    and "\<forall>kv \<in> set kvs. fst kv = k \<longrightarrow> is_num (snd kv)"
  shows "held (tally env ob kvs) k = JNum (Num (num_of (held ob k) + key_sum k kvs))"
  using assms(2,3)
proof (induction kvs arbitrary: ob)
  case Nil
  then show ?case
    by (auto simp: tally_Nil key_sum_def is_num_conv num_of_def)
next
  case (Cons kv kvs)
  let ?ob = "bump env ob (fst kv) (snd kv)"
  have h: "held ?ob k =
      (if fst kv = k then JNum (Num (num_of (held ob k) + num_of (snd kv))) else held ob k)"
    using Cons.prems held_bump[OF assms(1) Cons.prems(1), of env "fst kv" "snd kv"] by auto
  then have n: "is_num (held ?ob k)"
    using Cons.prems(1) by (auto simp: is_num_def)
  have "held (tally env ?ob kvs) k = JNum (Num (num_of (held ?ob k) + key_sum k kvs))"
    using Cons.IH[OF n] Cons.prems(2) by simp
  then show ?case
    using h by (auto simp: tally_Cons key_sum_def num_of_def)
qed

lemma tally_own:
  assumes "k \<noteq> ''__proto__''"
  shows "k \<in> set (map fst (tally env ob kvs)) \<longleftrightarrow> k \<in> set (map fst ob) \<or> k \<in> fst ` set kvs"
proof (induction kvs arbitrary: ob)
  case Nil
  then show ?case by (simp add: tally_Nil)
next
  case (Cons kv kvs)
  have "k \<in> set (map fst (bump env ob (fst kv) (snd kv))) \<longleftrightarrow>
      k \<in> set (map fst ob) \<or> k = fst kv"
    using assms by (auto simp: bump_keys)
  with Cons.IH[of "bump env ob (fst kv) (snd kv)"] show ?case
    by (auto simp: tally_Cons)
qed

lemma tally_distinct:
  "distinct (map fst ob) \<Longrightarrow> distinct (map fst (tally env ob kvs))"
proof (induction kvs arbitrary: ob)
  case Nil
  then show ?case by (simp add: tally_Nil)
next
  case (Cons kv kvs)
  have "distinct (map fst (bump env ob (fst kv) (snd kv)))"
    using Cons.prems by (simp add: bump_keys)
  from Cons.IH[OF this] show ?case by (simp add: tally_Cons)
qed

lemma tally_keys_subset:
  "set (map fst (tally env ob kvs)) \<subseteq> set (map fst ob) \<union> fst ` set kvs"
proof (induction kvs arbitrary: ob)
  case Nil
  then show ?case by (simp add: tally_Nil)
next
  case (Cons kv kvs)
  have "set (map fst (bump env ob (fst kv) (snd kv))) \<subseteq> set (map fst ob) \<union> {fst kv}"
    by (auto simp: bump_keys)
  with Cons.IH[of "bump env ob (fst kv) (snd kv)"] show ?case
    by (auto simp: tally_Cons)
qed

text \<open>The own names appear in the order in which they were first written.\<close>

lemma filter_removeAll_in:
  "k \<in> A \<Longrightarrow> filter (\<lambda>x. x \<notin> A) (removeAll k xs) = filter (\<lambda>x. x \<notin> A) xs"
  by (induction xs) auto

lemma filter_removeAll_out:
  "filter (\<lambda>x. x \<notin> insert k A) xs = filter (\<lambda>x. x \<notin> A) (removeAll k xs)"
  by (induction xs) auto

lemma tally_keys_order:
  assumes "''__proto__'' \<notin> set (map fst ob)"
  shows "map fst (tally env ob kvs) =
           map fst ob @
           filter (\<lambda>k. k \<notin> set (map fst ob))
             (first_seen (filter (\<lambda>k. k \<noteq> ''__proto__'') (map fst kvs)))"
  using assms
proof (induction kvs arbitrary: ob)
  case Nil
  then show ?case by (simp add: tally_Nil)
next
  case (Cons kv kvs)
  let ?k = "fst kv"
  let ?ob = "bump env ob ?k (snd kv)"
  let ?rest = "first_seen (filter (\<lambda>k. k \<noteq> ''__proto__'') (map fst kvs))"
  have keys: "map fst ?ob =
      (if ?k = ''__proto__'' \<or> ?k \<in> set (map fst ob) then map fst ob else map fst ob @ [?k])"
    by (rule bump_keys)
  have sk: "fst ` set ?ob =
      (if ?k = ''__proto__'' \<or> ?k \<in> fst ` set ob then fst ` set ob
       else insert ?k (fst ` set ob))"
    using arg_cong[OF keys, of set] by (simp split: if_splits)
  have np: "''__proto__'' \<notin> set (map fst ?ob)"
    using Cons.prems sk by (auto split: if_splits)
  note ih = Cons.IH[OF np]
  show ?case
  proof (cases "?k = ''__proto__'' \<or> ?k \<in> fst ` set ob")
    case True
    then have same: "map fst ?ob = map fst ob" "fst ` set ?ob = fst ` set ob"
      using keys sk by simp_all
    show ?thesis
    proof (cases "?k = ''__proto__''")
      case True
      then show ?thesis using ih same by (simp add: tally_Cons)
    next
      case False
      with True have "?k \<in> fst ` set ob" by simp
      then show ?thesis
        using ih same False filter_removeAll_in[of ?k "fst ` set ob" ?rest]
        by (simp add: tally_Cons)
    qed
  next
    case False
    then have new: "map fst ?ob = map fst ob @ [?k]" "fst ` set ?ob = insert ?k (fst ` set ob)"
      using keys sk by simp_all
    show ?thesis
      using ih new False filter_removeAll_out[of ?k "fst ` set ob" ?rest]
      by (simp add: tally_Cons)
  qed
qed

lemma tally_keys_first_seen:
  "map fst (tally env [] kvs) = first_seen (filter (\<lambda>k. k \<noteq> ''__proto__'') (map fst kvs))"
  using tally_keys_order[of "[]" env kvs] by simp


subsection \<open>Resolved names\<close>

lemma last_dropWhile_nonempty:
  assumes "dropWhile P xs \<noteq> []"
  shows "last (dropWhile P xs) = last xs"
proof -
  have "xs = takeWhile P xs @ dropWhile P xs" by simp
  then have "last xs = last (takeWhile P xs @ dropWhile P xs)" by simp
  also have "\<dots> = last (dropWhile P xs)" using assms by (rule last_appendR)
  finally show ?thesis by simp
qed

lemma js_trim_idem: "js_trim (js_trim s) = js_trim s"
proof -
  define a where "a = dropWhile is_space s"
  define b where "b = dropWhile is_space (rev a)"
  have t: "js_trim s = rev b" by (simp add: js_trim_def a_def b_def)
  have front: "dropWhile is_space (rev b) = rev b"
  proof (cases "b = []")
    case True
    then show ?thesis by simp
  next
    case False
    then have ra: "rev a \<noteq> []" by (auto simp: b_def)
    then have an: "a \<noteq> []" by simp
    have "last b = last (rev a)"
      using False unfolding b_def by (rule last_dropWhile_nonempty)
    also have "\<dots> = hd a" using an by (simp add: last_rev)
    finally have "hd (rev b) = hd a" using False by (simp add: hd_rev)
    moreover have "\<not> is_space (hd a)"
      using an unfolding a_def by (rule hd_dropWhile)
    ultimately show ?thesis
      using False by (simp add: dropWhile_eq_self_iff)
  qed
  have rear: "dropWhile is_space b = b"
    unfolding b_def by (rule dropWhile_idem)
  show ?thesis
    unfolding t by (simp add: js_trim_def front rear)
qed

lemma isPlaceholderName_trimmed:
  assumes "v \<noteq> Undefined" and "v \<noteq> Null"
  shows "isPlaceholderName env (JStr (js_trim (ToString env v))) = isPlaceholderName env v"
  using assms by (simp add: isPlaceholderName_def js_trim_idem)

lemma isPlaceholderName_text:
  "isPlaceholderName env (JStr s) = isPlaceholderName env' (JStr s)"
  by (simp add: isPlaceholderName_def)

lemma Unknown_is_placeholder: "isPlaceholderName env (JStr ''Unknown'')"
proof -
  have "isPlaceholderName sample_env (JStr ''Unknown'')" by code_simp
  then show ?thesis using isPlaceholderName_text by blast
qed

lemma empty_is_placeholder: "isPlaceholderName env (JStr [])"
  by (simp add: isPlaceholderName_def js_trim_def)

lemma first_name_cases:
  "first_name env cs = ''Unknown'' \<and> (\<forall>c \<in> set cs. \<not> truthy c \<or> isPlaceholderName env c) \<or>
   (\<exists>c \<in> set cs. truthy c \<and> \<not> isPlaceholderName env c \<and>
      first_name env cs = js_trim (ToString env c))"
  by (induction cs) auto

lemma truthy_defined: "truthy c \<Longrightarrow> c \<noteq> Undefined \<and> c \<noteq> Null"
  by (cases c) auto

lemma accepted_name_real:
  assumes "truthy c" and "\<not> isPlaceholderName env c"
  shows "\<not> isPlaceholderName env (JStr (js_trim (ToString env c)))"
    and "js_trim (ToString env c) \<noteq> ''Unknown''"
    and "js_trim (ToString env c) \<noteq> []"
proof -
  from assms(1) have d: "c \<noteq> Undefined" "c \<noteq> Null" by (simp_all add: truthy_defined)
  show np: "\<not> isPlaceholderName env (JStr (js_trim (ToString env c)))"
    using assms(2) by (simp add: isPlaceholderName_trimmed[OF d])
  show "js_trim (ToString env c) \<noteq> ''Unknown''"
    using np Unknown_is_placeholder[of env] by auto
  show "js_trim (ToString env c) \<noteq> []"
    using np empty_is_placeholder[of env] by auto
qed

lemma resolved_unknown_iff:
  "resolvePersonName env r = ''Unknown'' \<longleftrightarrow>
     (\<forall>c \<in> set (candidates r). \<not> truthy c \<or> isPlaceholderName env c)"
proof
  assume u: "resolvePersonName env r = ''Unknown''"
  show "\<forall>c \<in> set (candidates r). \<not> truthy c \<or> isPlaceholderName env c"
  proof (rule ccontr)
    assume "\<not> (\<forall>c \<in> set (candidates r). \<not> truthy c \<or> isPlaceholderName env c)"
    with first_name_cases[of env "candidates r"]
    obtain c where "truthy c" "\<not> isPlaceholderName env c"
      and "first_name env (candidates r) = js_trim (ToString env c)"
      by blast
    with accepted_name_real(2)[of c env] u show False
      by (simp add: resolvePersonName_def)
  qed
next
  assume "\<forall>c \<in> set (candidates r). \<not> truthy c \<or> isPlaceholderName env c"
  with first_name_cases[of env "candidates r"] show "resolvePersonName env r = ''Unknown''"
    unfolding resolvePersonName_def by blast
qed

lemma resolved_real:
  assumes "resolvePersonName env r \<noteq> ''Unknown''"
  shows "real_person env (resolvePersonName env r)"
proof -
  from assms obtain c where "truthy c" "\<not> isPlaceholderName env c"
    and "resolvePersonName env r = js_trim (ToString env c)"
    using first_name_cases[of env "candidates r"] by (auto simp: resolvePersonName_def)
  then show ?thesis
    using accepted_name_real[of c env] by (simp add: real_person_def)
qed



subsection \<open>The per-person accumulators of a report\<close>

lemma key_sum_counts:
  "key_sum k (map (\<lambda>r. (f r, one)) rows) = of_nat (length (filter (\<lambda>r. f r = k) rows))"
  by (induction rows) (auto simp: key_sum_def num_of_def one_def)

lemma key_sum_revenue:
  "key_sum k (map (\<lambda>r. (f r, JNum (rowRevenue env r))) rows) =
     sum_list (map (\<lambda>r. rat_of (rowRevenue env r)) (filter (\<lambda>r. f r = k) rows))"
proof (induction rows)
  case Nil
  then show ?case by (simp add: key_sum_def)
next
  case (Cons r rows)
  obtain q where "rowRevenue env r = Num q" using rowRevenue_Num by blast
  with Cons show ?case by (auto simp: key_sum_def num_of_def rat_of_def)
qed

lemma held_empty: "held [] k = JNum (Num 0)"
  by (simp add: held_def)

lemma obj_get_own:
  "k \<in> set (map fst ob) \<Longrightarrow> obj_get ob k = held ob k"
  by (auto simp: obj_get_def held_def map_of_None_keys split: option.splits)

lemma person_counts:
  assumes "computeAdvancedAnalytics env rows g s = Inr rep"
  shows "map fst (perPerson (basic rep)) =
           first_seen (filter (\<lambda>k. k \<noteq> ''__proto__'') (map (resolvePersonName env) rows))"
    and "k \<notin> set object_prototype_keys \<Longrightarrow>
           held (perPerson (basic rep)) k = JNum (Num (of_nat (records_of env rows k)))"
    and "map fst (basic_perPersonRevenue (basic rep)) = map fst (perPerson (basic rep))"
    and "k \<notin> set object_prototype_keys \<Longrightarrow>
           held (basic_perPersonRevenue (basic rep)) k = JNum (Num (revenue_of env rows k))"
proof -
  let ?cs = "map (\<lambda>r. (resolvePersonName env r, one)) rows"
  let ?rs = "map (\<lambda>r. (resolvePersonName env r, JNum (rowRevenue env r))) rows"
  have c: "perPerson (basic rep) = tally env [] ?cs" by (rule report_fields(5)[OF assms])
  have r: "basic_perPersonRevenue (basic rep) = tally env [] ?rs"
    by (rule report_fields(6)[OF assms])
  show k1: "map fst (perPerson (basic rep)) =
           first_seen (filter (\<lambda>k. k \<noteq> ''__proto__'') (map (resolvePersonName env) rows))"
    by (simp add: c tally_keys_first_seen comp_def)
  show "map fst (basic_perPersonRevenue (basic rep)) = map fst (perPerson (basic rep))"
    by (simp add: k1) (simp add: r tally_keys_first_seen comp_def)
  show "held (perPerson (basic rep)) k = JNum (Num (of_nat (records_of env rows k)))"
    if nk: "k \<notin> set object_prototype_keys"
  proof -
    have "held (tally env [] ?cs) k = JNum (Num (num_of (held [] k) + key_sum k ?cs))"
      by (rule tally_held[OF nk]) (auto simp: held_empty is_num_def one_def)
    then show ?thesis
      by (simp add: c held_empty num_of_def key_sum_counts records_of_def)
  qed
  show "held (basic_perPersonRevenue (basic rep)) k = JNum (Num (revenue_of env rows k))"
    if nk: "k \<notin> set object_prototype_keys"
  proof -
    have "\<forall>kv \<in> set ?rs. fst kv = k \<longrightarrow> is_num (snd kv)"
      using rowRevenue_Num by (auto simp: is_num_conv)
    then have "held (tally env [] ?rs) k = JNum (Num (num_of (held [] k) + key_sum k ?rs))"
      by (intro tally_held[OF nk]) (simp_all add: held_empty is_num_def)
    then show ?thesis
      by (simp add: r held_empty num_of_def key_sum_revenue revenue_of_def)
  qed
qed

lemma person_key_own:
  assumes "computeAdvancedAnalytics env rows g s = Inr rep"
    and "r \<in> set rows" and "resolvePersonName env r \<noteq> ''__proto__''"
  shows "resolvePersonName env r \<in> set (map fst (perPerson (basic rep)))"
proof -
  let ?cs = "map (\<lambda>r. (resolvePersonName env r, one)) rows"
  have c: "perPerson (basic rep) = tally env [] ?cs" by (rule report_fields(5)[OF assms(1)])
  have "resolvePersonName env r \<in> fst ` set ?cs" using assms(2) by (auto simp: image_image)
  then show ?thesis
    unfolding c using tally_own[OF assms(3), of env "[]" ?cs] by simp
qed

lemma person_keys_resolved:
  assumes "computeAdvancedAnalytics env rows g s = Inr rep"
  shows "set (map fst (perPerson (basic rep))) \<subseteq> resolvePersonName env ` set rows"
proof -
  let ?cs = "map (\<lambda>r. (resolvePersonName env r, one)) rows"
  have c: "perPerson (basic rep) = tally env [] ?cs" by (rule report_fields(5)[OF assms(1)])
  show ?thesis
    unfolding c using tally_keys_subset[of env "[]" ?cs] by (auto simp: image_image)
qed


subsection \<open>The record of a person without a name\<close>

lemma foldl_better_row_mem:
  "foldl (better_row env) mx ps = mx \<or> (\<exists>p \<in> set ps. foldl (better_row env) mx ps = Some p)"
proof (induction ps arbitrary: mx)
  case Nil
  then show ?case by simp
next
  case (Cons p ps)
  from Cons.IH[of "better_row env mx p"] show ?case
    by (auto simp: better_row_def split: if_splits)
qed

lemma foldl_better_entry_mem:
  "foldl (better_entry env) mx es = mx \<or> foldl (better_entry env) mx es \<in> set es"
proof (induction es arbitrary: mx)
  case Nil
  then show ?case by simp
next
  case (Cons e es)
  from Cons.IH[of "better_entry env mx e"] show ?case
    by (auto simp: better_entry_def split: if_splits)
qed

lemma topPerformer_real:
  assumes "mk_topPerformer env ps = Some p"
  shows "p \<in> set ps \<and> real_person env (pr_person p)"
  using assms foldl_better_row_mem[of env None "filter (\<lambda>p. real_person env (pr_person p)) ps"]
  by (auto simp: mk_topPerformer_def)

lemma topRevenuePerformerEntry_cases:
  "topRevenuePerformerEntry env ob = ([], JNum (Num 0)) \<or>
   (topRevenuePerformerEntry env ob \<in> set (obj_entries ob) \<and>
    real_person env (fst (topRevenuePerformerEntry env ob)))"
  using foldl_better_entry_mem[of env "([], JNum (Num 0))"
      "filter (\<lambda>e. real_person env (fst e)) (obj_entries ob)"]
  by (auto simp: topRevenuePerformerEntry_def)

lemma real_person_simps:
  "real_person env n \<Longrightarrow> n \<noteq> ''Unknown''" "real_person env n \<Longrightarrow> n \<noteq> []"
  by (auto simp: real_person_def)

lemma Unknown_not_inherited: "''Unknown'' \<notin> set object_prototype_keys"
  by (simp add: object_prototype_keys_def)

lemma mk_peopleRows_row:
  assumes "k \<in> set (obj_keys counts)"
  shows "\<exists>p \<in> set (mk_peopleRows env g s counts ic revs).
           pr_person p = k \<and> trucks p = js_or (obj_get counts k) (JNum (Num 0)) \<and>
           revenue p = js_or (obj_get revs k) (JNum (Num 0))"
  unfolding mk_peopleRows_def using assms by simp

text \<open>
  Claim C2.  Take a record each of whose candidate names is missing, empty, white space
  or a placeholder (\<open>n/a\<close>, \<open>na\<close>, \<open>none\<close>, \<open>unknown\<close>, \<open>-\<close>, in any case): these
  are the records whose name resolves to \<open>Unknown\<close>.  When a report is produced, it is
  counted under the own name \<open>Unknown\<close> of the per-person mapping and in
  \<open>totalTrucks\<close>, and the
  per-person table has a row for \<open>Unknown\<close> with that count.  \<open>uniquePeople\<close> counts the
  names other than \<open>Unknown\<close>; the top performer is never the \<open>Unknown\<close> row; the entry
  selected as top revenue performer is never the \<open>Unknown\<close> bucket, and where the report
  shows the name \<open>Unknown\<close> there it is the default for "nobody", with revenue 0.
\<close>

theorem unknown_person_bucket:
  assumes "computeAdvancedAnalytics env rows peopleToGroup peopleToShift = Inr rep"
    and "r \<in> set rows"
    and "\<forall>c \<in> set (candidates r). \<not> truthy c \<or> isPlaceholderName env c"
  shows "resolvePersonName env r = ''Unknown'' \<and>
         ''Unknown'' \<in> set (obj_keys (perPerson (basic rep))) \<and>
         obj_get (perPerson (basic rep)) ''Unknown'' =
           JNum (Num (of_nat (records_of env rows ''Unknown''))) \<and>
         1 \<le> records_of env rows ''Unknown'' \<and>
         uniquePeople (stats rep) =
           length (filter (\<lambda>k. k \<noteq> ''Unknown'') (obj_keys (perPerson (basic rep)))) \<and>
         (\<forall>p. topPerformer (stats rep) = Some p \<longrightarrow> pr_person p \<noteq> ''Unknown'') \<and>
         fst (topRevenuePerformerEntry env (basic_perPersonRevenue (basic rep))) \<noteq> ''Unknown'' \<and>
         (tr_name (topRevenuePerformer (stats rep)) = ''Unknown'' \<longrightarrow>
            tr_revenue (topRevenuePerformer (stats rep)) = JNum (Num 0)) \<and>
         totalTrucks (basic rep) = length rows \<and>
         (\<exists>p \<in> set (peopleRows (basic rep)).
            pr_person p = ''Unknown'' \<and>
            trucks p = JNum (Num (of_nat (records_of env rows ''Unknown''))))"
proof -
  let ?U = "''Unknown''"
  let ?counts = "perPerson (basic rep)"
  let ?revs = "basic_perPersonRevenue (basic rep)"
  let ?n = "records_of env rows ?U"
  note run = assms(1)
  have unknown: "resolvePersonName env r = ?U"
    using assms(3) by (simp only: resolved_unknown_iff)
  have "?U \<noteq> ''__proto__''" by simp
  with person_key_own[OF run assms(2)] unknown
  have own': "?U \<in> set (map fst ?counts)" by simp
  then have own: "?U \<in> set (obj_keys ?counts)" by (simp add: set_obj_keys)
  have val: "obj_get ?counts ?U = JNum (Num (of_nat ?n))"
    using obj_get_own[OF own'] person_counts(2)[OF run Unknown_not_inherited] by simp
  have "filter (\<lambda>r. resolvePersonName env r = ?U) rows \<noteq> []"
    using assms(2) unknown by (auto simp: filter_empty_conv)
  then have pos: "1 \<le> ?n" by (simp add: records_of_def Suc_le_eq)
  have uniq: "uniquePeople (stats rep) = length (filter (\<lambda>k. k \<noteq> ?U) (obj_keys ?counts))"
  proof -
    have "(\<not> isPlaceholderName env (JStr k) \<and> k \<noteq> ?U) = (k \<noteq> ?U)"
      if "k \<in> set (obj_keys ?counts)" for k
    proof -
      from that person_keys_resolved[OF run] obtain r' where "k = resolvePersonName env r'"
        by (auto simp: set_obj_keys)
      then show ?thesis using resolved_real[of env r'] by (auto simp: real_person_def)
    qed
    then have "filter (\<lambda>p. \<not> isPlaceholderName env (JStr p) \<and> p \<noteq> ?U) (obj_keys ?counts) =
        filter (\<lambda>k. k \<noteq> ?U) (obj_keys ?counts)"
      by (intro filter_cong) simp_all
    then show ?thesis by (simp add: report_fields(11)[OF run] mk_uniquePeople_def)
  qed
  have top: "pr_person p \<noteq> ?U" if "topPerformer (stats rep) = Some p" for p
  proof -
    from that have "mk_topPerformer env (peopleRows (basic rep)) = Some p"
      by (simp add: report_fields(12)[OF run])
    then have "real_person env (pr_person p)" by (simp add: topPerformer_real)
    then show ?thesis by (rule real_person_simps(1))
  qed
  have entry: "fst (topRevenuePerformerEntry env ?revs) \<noteq> ?U"
  proof (cases "topRevenuePerformerEntry env ?revs = ([], JNum (Num 0))")
    case True
    then show ?thesis by simp
  next
    case False
    with topRevenuePerformerEntry_cases[of env ?revs]
    have "real_person env (fst (topRevenuePerformerEntry env ?revs))" by blast
    then show ?thesis by (rule real_person_simps(1))
  qed
  have default: "tr_revenue (topRevenuePerformer (stats rep)) = JNum (Num 0)"
    if "tr_name (topRevenuePerformer (stats rep)) = ?U"
  proof -
    from that entry have "fst (topRevenuePerformerEntry env ?revs) = []"
      by (simp add: report_fields(13)[OF run] mk_topRevenuePerformer_def Let_def split: if_splits)
    have "topRevenuePerformerEntry env ?revs = ([], JNum (Num 0))"
    proof (rule ccontr)
      assume "topRevenuePerformerEntry env ?revs \<noteq> ([], JNum (Num 0))"
      with topRevenuePerformerEntry_cases[of env ?revs]
      have "real_person env (fst (topRevenuePerformerEntry env ?revs))" by blast
      then have "fst (topRevenuePerformerEntry env ?revs) \<noteq> []" by (rule real_person_simps(2))
      with \<open>fst (topRevenuePerformerEntry env ?revs) = []\<close> show False by simp
    qed
    then show ?thesis
      by (simp add: report_fields(13)[OF run] mk_topRevenuePerformer_def Let_def js_or_def)
  qed
  have tot: "totalTrucks (basic rep) = length rows" by (rule report_fields(1)[OF run])
  have row: "\<exists>p \<in> set (peopleRows (basic rep)). pr_person p = ?U \<and> trucks p = JNum (Num (of_nat ?n))"
  proof -
    from report_fields(14)[OF run] obtain ic where
      pr: "peopleRows (basic rep) = mk_peopleRows env peopleToGroup peopleToShift ?counts ic ?revs"
      by blast
    from mk_peopleRows_row[OF own, of env peopleToGroup peopleToShift ic ?revs]
    show ?thesis using pos by (auto simp: pr val js_or_def)
  qed
  show ?thesis
  proof (intro conjI allI impI)
    show "resolvePersonName env r = ?U" by (rule unknown)
    show "?U \<in> set (obj_keys ?counts)" by (rule own)
    show "obj_get ?counts ?U = JNum (Num (of_nat ?n))" by (rule val)
    show "1 \<le> ?n" by (rule pos)
    show "uniquePeople (stats rep) = length (filter (\<lambda>k. k \<noteq> ?U) (obj_keys ?counts))"
      by (rule uniq)
    show "pr_person p \<noteq> ?U" if "topPerformer (stats rep) = Some p" for p
      by (rule top[OF that])
    show "fst (topRevenuePerformerEntry env ?revs) \<noteq> ?U" by (rule entry)
    show "tr_revenue (topRevenuePerformer (stats rep)) = JNum (Num 0)"
      if "tr_name (topRevenuePerformer (stats rep)) = ?U" by (rule default[OF that])
    show "totalTrucks (basic rep) = length rows" by (rule tot)
    show "\<exists>p \<in> set (peopleRows (basic rep)).
        pr_person p = ?U \<and> trucks p = JNum (Num (of_nat ?n))" by (rule row)
  qed
qed


theorem unknown_person_bucket_witness:
  "\<not> isl (computeAdvancedAnalytics sample_env
      [named_row ''N/A'', named_row ''John'', blank_row] [] []) \<and>
   list_all (isPlaceholderName sample_env)
     [JStr ''N/A'', JStr ''n/a'', JStr ''na'', JStr ''none'', JStr ''UNKNOWN'', JStr ''-'',
      JStr [], JStr ''   '', JStr ''Unknown''] \<and>
   list_all (\<lambda>c. \<not> truthy c \<or> isPlaceholderName sample_env c) (candidates (named_row ''N/A'')) \<and>
   resolvePersonName sample_env (named_row ''N/A'') = ''Unknown'' \<and>
   obj_get (perPerson (basic (projr (computeAdvancedAnalytics sample_env
      [named_row ''N/A'', named_row ''John'', blank_row] [] [])))) ''Unknown'' = JNum (Num 2) \<and>
   uniquePeople (stats (projr (computeAdvancedAnalytics sample_env
      [named_row ''N/A'', named_row ''John'', blank_row] [] []))) = 1 \<and>
   totalTrucks (basic (projr (computeAdvancedAnalytics sample_env
      [named_row ''N/A'', named_row ''John'', blank_row] [] []))) = 3 \<and>
   map_option pr_person (topPerformer (stats (projr (computeAdvancedAnalytics sample_env
      [named_row ''N/A'', named_row ''John'', blank_row] [] [])))) = Some ''John''"
proof -
  let ?rows = "[named_row ''N/A'', named_row ''John'', blank_row]"
  let ?a = "computeAdvancedAnalytics sample_env ?rows [] []"
  have run: "\<not> isl ?a" by code_simp
  then have a: "?a = Inr (projr ?a)" by simp
  have placeholders: "list_all (isPlaceholderName sample_env)
     [JStr ''N/A'', JStr ''n/a'', JStr ''na'', JStr ''none'', JStr ''UNKNOWN'', JStr ''-'',
      JStr [], JStr ''   '', JStr ''Unknown'']"
    by code_simp
  have rejected: "list_all (\<lambda>c. \<not> truthy c \<or> isPlaceholderName sample_env c)
      (candidates (named_row ''N/A''))"
    by code_simp
  then have name: "\<forall>c \<in> set (candidates (named_row ''N/A'')).
      \<not> truthy c \<or> isPlaceholderName sample_env c"
    by (simp only: list_all_iff)
  have mem: "named_row ''N/A'' \<in> set ?rows" by simp
  have n: "records_of sample_env ?rows ''Unknown'' = 2" by code_simp
  have keys: "obj_keys (perPerson (basic (projr ?a))) = [''Unknown'', ''John'']" by code_simp
  have top: "map_option pr_person (topPerformer (stats (projr ?a))) = Some ''John''" by code_simp
  note t = unknown_person_bucket[OF a mem name]
  from t have resolved: "resolvePersonName sample_env (named_row ''N/A'') = ''Unknown''"
    by (rule conjunct1)
  from t n have count: "obj_get (perPerson (basic (projr ?a))) ''Unknown'' = JNum (Num 2)"
    by simp
  from t keys have uniq: "uniquePeople (stats (projr ?a)) = 1" by simp
  from t have tot: "totalTrucks (basic (projr ?a)) = 3" by simp
  show ?thesis
    by (intro conjI) (rule run placeholders rejected resolved count uniq tot top)+
qed

subsection \<open>The first strict maximum of a reduction\<close>











lemma set_first_seen: "set (first_seen xs) = set xs"
  by (induction xs) auto

lemma distinct_first_seen: "distinct (first_seen xs)"
  by (induction xs) (auto simp: distinct_removeAll)


subsection \<open>Who is the top performer\<close>











subsection \<open>Do the bucket counts add up to the total\<close>

lemma tally_ones:
  assumes clean: "\<forall>r \<in> set rows. f r \<notin> set object_prototype_keys"
  shows "map fst (tally env [] (map (\<lambda>r. (f r, one)) rows)) = first_seen (map f rows)"
    and "k \<in> f ` set rows \<Longrightarrow>
           obj_get (tally env [] (map (\<lambda>r. (f r, one)) rows)) k =
             JNum (Num (of_nat (count_list (map f rows) k)))"
proof -
  let ?kvs = "map (\<lambda>r. (f r, one)) rows"
  have "\<forall>k \<in> set (map f rows). k \<noteq> ''__proto__''"
    using clean not_inherited_not_proto by auto
  then have "filter (\<lambda>k. k \<noteq> ''__proto__'') (map f rows) = map f rows"
    by (simp only: filter_id_conv)
  then show keys: "map fst (tally env [] ?kvs) = first_seen (map f rows)"
    by (simp add: tally_keys_first_seen comp_def)
  show "obj_get (tally env [] ?kvs) k = JNum (Num (of_nat (count_list (map f rows) k)))"
    if k: "k \<in> f ` set rows"
  proof -
    from k clean have nk: "k \<notin> set object_prototype_keys" by auto
    have own: "k \<in> set (map fst (tally env [] ?kvs))"
      using k by (simp only: keys set_first_seen set_map)
    have "held (tally env [] ?kvs) k = JNum (Num (num_of (held [] k) + key_sum k ?kvs))"
      by (rule tally_held[OF nk]) (auto simp: held_empty is_num_def one_def)
    moreover have "length (filter (\<lambda>r. f r = k) rows) = count_list (map f rows) k"
      by (simp add: count_list_eq_length_filter comp_def eq_commute)
    ultimately show ?thesis
      using obj_get_own[OF own] by (simp add: held_empty num_of_def key_sum_counts)
  qed
qed

lemma foldl_js_add_nums:
  "foldl (js_add env) (JNum (Num a)) (map (\<lambda>k. JNum (Num (c k))) ks) =
     JNum (Num (a + sum_list (map c ks)))"
  by (induction ks arbitrary: a) (simp_all add: js_add_def add.assoc)

lemma sum_counts_tally_ones:
  assumes clean: "\<forall>r \<in> set rows. f r \<notin> set object_prototype_keys"
  shows "sum_counts env (tally env [] (map (\<lambda>r. (f r, one)) rows)) =
           JNum (Num (of_nat (length rows)))"
proof -
  let ?ob = "tally env [] (map (\<lambda>r. (f r, one)) rows)"
  let ?xs = "map f rows"
  have keys: "map fst ?ob = first_seen ?xs" by (rule tally_ones(1)[OF clean])
  have set_keys: "set (obj_keys ?ob) = set ?xs"
    using arg_cong[OF keys, of set] by (simp add: set_obj_keys set_first_seen)
  have "distinct (map fst ?ob)" by (simp only: keys distinct_first_seen)
  then have dist: "distinct (obj_keys ?ob)" by (rule distinct_obj_keys)
  have vals: "map snd (obj_entries ?ob) =
      map (\<lambda>k. JNum (Num (of_nat (count_list ?xs k)))) (obj_keys ?ob)"
    using set_keys tally_ones(2)[OF clean, of _ env]
    by (simp add: obj_entries_def comp_def)
  have "sum_list (map (\<lambda>k. (of_nat (count_list ?xs k) :: rat)) (obj_keys ?ob)) =
      (\<Sum>k \<in> set (obj_keys ?ob). of_nat (count_list ?xs k))"
    using dist by (rule sum_list_distinct_conv_sum_set)
  also have "\<dots> = of_nat (\<Sum>k \<in> set ?xs. count_list ?xs k)"
    by (simp only: set_keys of_nat_sum)
  also have "(\<Sum>k \<in> set ?xs. count_list ?xs k) = length ?xs"
    by (rule sum_count_set) simp_all
  finally have "sum_list (map (\<lambda>k. (of_nat (count_list ?xs k) :: rat)) (obj_keys ?ob)) =
      of_nat (length rows)"
    by simp
  then show ?thesis
    by (simp add: sum_counts_def vals foldl_js_add_nums)
qed

text \<open>
  The per-person, per-group and per-shift counts of a report add up to the number of
  records as long as no bucket name is the name of a member of \<open>Object.prototype\<close>.
\<close>

lemma counts_add_up:
  assumes run: "computeAdvancedAnalytics env rows g s = Inr rep"
  shows "(\<forall>r \<in> set rows. resolvePersonName env r \<notin> set object_prototype_keys) \<Longrightarrow>
           sum_counts env (perPerson (basic rep)) = JNum (Num (of_nat (totalTrucks (basic rep))))"
    and "(\<forall>r \<in> set rows. bucket_key env g r \<notin> set object_prototype_keys) \<Longrightarrow>
           sum_counts env (perGroup (basic rep)) = JNum (Num (of_nat (totalTrucks (basic rep))))"
    and "(\<forall>r \<in> set rows. bucket_key env s r \<notin> set object_prototype_keys) \<Longrightarrow>
           sum_counts env (perShift (basic rep)) = JNum (Num (of_nat (totalTrucks (basic rep))))"
  using sum_counts_tally_ones[of rows _ env]
  by (simp_all add: report_fields(1,5,7,8)[OF run])

text \<open>
  Claim C1 says that the per-person counts always add up to the number of records.  The
  one record of a person called \<open>__proto__\<close> is counted in \<open>totalTrucks\<close> but leaves no
  own name in the per-person mapping: the write goes to the inherited setter, which ignores
  it.  The counts add up to 0, the total is 1, and the per-person table is empty.  For a
  person called \<open>constructor\<close> the running count starts from the inherited function, so
  the count is a string and so is the sum.
\<close>

theorem inherited_name_breaks_person_counts:
  "\<not> isl (computeAdvancedAnalytics sample_env [named_row ''__proto__''] [] []) \<and>
   resolvePersonName sample_env (named_row ''__proto__'') = ''__proto__'' \<and>
   totalTrucks (basic (projr (computeAdvancedAnalytics sample_env
      [named_row ''__proto__''] [] []))) = 1 \<and>
   perPerson (basic (projr (computeAdvancedAnalytics sample_env
      [named_row ''__proto__''] [] []))) = [] \<and>
   sum_counts sample_env (perPerson (basic (projr (computeAdvancedAnalytics sample_env
      [named_row ''__proto__''] [] [])))) = JNum (Num 0) \<and>
   peopleRows (basic (projr (computeAdvancedAnalytics sample_env
      [named_row ''__proto__''] [] []))) = [] \<and>
   \<not> isl (computeAdvancedAnalytics sample_env [named_row ''constructor''] [] []) \<and>
   totalTrucks (basic (projr (computeAdvancedAnalytics sample_env
      [named_row ''constructor''] [] []))) = 1 \<and>
   perPerson (basic (projr (computeAdvancedAnalytics sample_env
      [named_row ''constructor''] [] []))) =
     [(''constructor'', JStr ''function Object() { [native code] }1'')]"
  by code_simp


end
